theory Spec2Isabelle
  imports Complex_Main
begin

section \<open>JavaScript string and number primitives used by the sequence allocator\<close>

text \<open>
  \<^verbatim>\<open>getNextBillNumber\<close> and \<^verbatim>\<open>getNextPurchaseNumber\<close> (server/storage.ts) compute
  \<^verbatim>\<open>parseInt(last.split('-')[2])\<close> and \<^verbatim>\<open>String(lastNumber + 1).padStart(3, '0')\<close>.
  Strings are lists of characters (document numbers are ASCII). A JavaScript number that
  is an integer is an \<open>int\<close>, \<open>NaN\<close> is \<open>None\<close>; the model coincides with the
  double arithmetic of the code for integers of magnitude below \<open>2 ^ 53\<close>.
\<close>

text \<open>\<^verbatim>\<open>s.split(c)\<close> for a one-character separator: never empty, \<^verbatim>\<open>"".split('-')\<close> is \<^verbatim>\<open>[""]\<close>.\<close>

fun js_split :: "char \<Rightarrow> string \<Rightarrow> string list" where
  "js_split c [] = [] # []"
| "js_split c (x # xs) =
     (if x = c then [] # js_split c xs
      else (case js_split c xs of
              [] \<Rightarrow> [x] # []
            | y # ys \<Rightarrow> (x # y) # ys))"

text \<open>\<^verbatim>\<open>xs[i]\<close> on an array: \<open>None\<close> is \<^verbatim>\<open>undefined\<close>.\<close>

definition js_index :: "'a list \<Rightarrow> nat \<Rightarrow> 'a option" where
  "js_index xs i = (if i < length xs then Some (xs ! i) else None)"

text \<open>The white space that \<^verbatim>\<open>parseInt\<close> skips, within ASCII.\<close>

definition is_ws :: "char \<Rightarrow> bool" where
  "is_ws c \<longleftrightarrow> c \<in> set [CHR 0x09, CHR 0x0A, CHR 0x0B, CHR 0x0C, CHR 0x0D, CHR '' '']"

text \<open>The value of a character as a digit: \<open>0-9\<close>, then \<open>a-z\<close> and \<open>A-Z\<close> from ten on.\<close>

definition digit_val :: "char \<Rightarrow> nat option" where
  "digit_val c =
     (let n = (of_char c :: nat)
      in if 48 \<le> n \<and> n \<le> 57 then Some (n - 48)
         else if 97 \<le> n \<and> n \<le> 122 then Some (n - 87)
         else if 65 \<le> n \<and> n \<le> 90 then Some (n - 55)
         else None)"

text \<open>The longest prefix of digits of the radix, as digit values.\<close>

fun take_digits :: "nat \<Rightarrow> string \<Rightarrow> nat list" where
  "take_digits r [] = []"
| "take_digits r (c # cs) =
     (case digit_val c of
        None \<Rightarrow> []
      | Some d \<Rightarrow> if d < r then d # take_digits r cs else [])"

definition digits_value :: "nat \<Rightarrow> nat list \<Rightarrow> nat" where
  "digits_value r ds = foldl (\<lambda>a d. a * r + d) 0 ds"

text \<open>
  \<^verbatim>\<open>parseInt(s)\<close> with no radix argument: skip white space, read an optional sign, switch
  to radix 16 after \<^verbatim>\<open>0x\<close> or \<^verbatim>\<open>0X\<close>, read the longest prefix of digits; \<open>NaN\<close> when
  that prefix is empty.
\<close>

definition parseInt :: "string \<Rightarrow> int option" where
  "parseInt s =
     (let t = dropWhile is_ws s;
          sgn_rest = (case t of
                        [] \<Rightarrow> (1 :: int, t)
                      | c # r \<Rightarrow> if c = CHR ''-'' then (- 1, r)
                                 else if c = CHR ''+'' then (1, r)
                                 else (1, t));
          u = snd sgn_rest;
          radix_rest = (if take 2 u = ''0x'' \<or> take 2 u = ''0X''
                        then (16 :: nat, drop 2 u) else (10, u));
          ds = take_digits (fst radix_rest) (snd radix_rest)
      in if ds = [] then None
         else Some (fst sgn_rest * int (digits_value (fst radix_rest) ds)))"

text \<open>\<^verbatim>\<open>parseInt(x)\<close> where \<open>x\<close> may be \<^verbatim>\<open>undefined\<close>: the argument is first converted to a string.\<close>

definition parseInt_opt :: "string option \<Rightarrow> int option" where
  "parseInt_opt x = parseInt (case x of None \<Rightarrow> ''undefined'' | Some s \<Rightarrow> s)"

text \<open>\<^verbatim>\<open>n + 1\<close>: \<open>NaN + 1\<close> is \<open>NaN\<close>.\<close>

definition js_succ :: "int option \<Rightarrow> int option" where
  "js_succ n = (case n of None \<Rightarrow> None | Some k \<Rightarrow> Some (k + 1))"

definition dec_digit :: "nat \<Rightarrow> char" where
  "dec_digit d = char_of (48 + d)"

fun nat_digits :: "nat \<Rightarrow> nat list" where
  "nat_digits n = (if n < 10 then [n] else nat_digits (n div 10) @ [n mod 10])"

text \<open>\<^verbatim>\<open>String(n)\<close> for an integer or \<open>NaN\<close>.\<close>

definition js_String :: "int option \<Rightarrow> string" where
  "js_String n =
     (case n of
        None \<Rightarrow> ''NaN''
      | Some k \<Rightarrow> if k < 0 then CHR ''-'' # map dec_digit (nat_digits (nat (- k)))
                  else map dec_digit (nat_digits (nat k)))"

text \<open>\<^verbatim>\<open>s.padStart(n, c)\<close> for a one-character filler: a longer string is returned as it is.\<close>

definition padStart :: "nat \<Rightarrow> char \<Rightarrow> string \<Rightarrow> string" where
  "padStart n c s = replicate (n - length s) c @ s"


section \<open>Data model (shared/schema.ts)\<close>

text \<open>
  Primary keys are generated by the database (\<^verbatim>\<open>gen_random_uuid()\<close>); the model draws
  them from a counter kept in the state. Every table is the list of its rows in creation
  order, so the row with the greatest \<^verbatim>\<open>created_at\<close> is the last one. Of the tables
  \<^verbatim>\<open>items\<close>, \<^verbatim>\<open>customers\<close>, \<^verbatim>\<open>vendors\<close> and \<^verbatim>\<open>users\<close> only the primary keys are
  kept: they are what the foreign keys of the other tables refer to. Timestamps
  (\<^verbatim>\<open>created_at\<close>, \<^verbatim>\<open>bill_date\<close>, \<^verbatim>\<open>due_date\<close>, \<^verbatim>\<open>last_updated\<close>) are not kept.
  Integer columns are \<open>int\<close> and decimal columns are \<open>rat\<close>. Every value that a
  caller submits is taken to lie within the range of the column it is written to; a value
  that the code computes, the new quantity of an inventory row, is checked against the
  range of the column where it is written, and a decimal is rounded to the scale of its
  column.
\<close>

type_synonym ident = nat

record inventory_row =
  inv_itemId :: ident
  inv_quantity :: int

record stock_movement =
  sm_id :: ident
  sm_itemId :: ident
  sm_type :: string
  sm_quantity :: int
  sm_reason :: "string option"

record insert_stock_movement =
  ism_itemId :: ident
  ism_type :: string
  ism_quantity :: int
  ism_reason :: "string option"

record bill =
  bill_id :: ident
  billNumber :: string
  bill_customerId :: ident
  bill_subtotal :: rat
  bill_gstAmount :: rat
  bill_total :: rat
  bill_status :: string
  bill_createdBy :: ident

record insert_bill =
  ib_billNumber :: string
  ib_customerId :: ident
  ib_subtotal :: rat
  ib_gstAmount :: rat
  ib_total :: rat
  ib_status :: "string option"
  ib_createdBy :: ident

record bill_item =
  bi_id :: ident
  bi_billId :: ident
  bi_itemId :: ident
  bi_quantity :: int
  bi_rate :: rat
  bi_amount :: rat

record insert_bill_item =
  ibi_itemId :: ident
  ibi_quantity :: int
  ibi_rate :: rat
  ibi_amount :: rat

record purchase =
  pur_id :: ident
  purchaseNumber :: string
  pur_vendorId :: ident
  pur_total :: rat
  pur_createdBy :: ident

record insert_purchase =
  ip_purchaseNumber :: string
  ip_vendorId :: ident
  ip_total :: rat
  ip_createdBy :: ident

record purchase_item =
  pi_id :: ident
  pi_purchaseId :: ident
  pi_itemId :: ident
  pi_quantity :: int
  pi_rate :: rat
  pi_amount :: rat

text \<open>\<^verbatim>\<open>insertPurchaseItemSchema\<close> omits only \<^verbatim>\<open>id\<close>, so the input carries a \<^verbatim>\<open>purchaseId\<close>.\<close>

record insert_purchase_item =
  ipi_purchaseId :: ident
  ipi_itemId :: ident
  ipi_quantity :: int
  ipi_rate :: rat
  ipi_amount :: rat

record db =
  items :: "ident list"
  customers :: "ident list"
  vendors :: "ident list"
  users :: "ident list"
  inventory :: "inventory_row list"
  stockMovements :: "stock_movement list"
  bills :: "bill list"
  billItems :: "bill_item list"
  purchases :: "purchase list"
  purchaseItems :: "purchase_item list"
  nextId :: ident

text \<open>
  What makes a statement of the database fail: a foreign key (\<^verbatim>\<open>.references(...)\<close>) or a
  unique constraint (\<^verbatim>\<open>.unique()\<close>) of the schema, a quantity outside the range of the
  \<^verbatim>\<open>integer\<close> column of the inventory, and the query builder's \<^verbatim>\<open>values()\<close>, which throws
  when it is given an empty array.
\<close>

datatype db_error = ForeignKeyViolation | UniqueViolation | EmptyValues | IntegerOutOfRange

text \<open>The range of an \<^verbatim>\<open>integer\<close> column.\<close>

definition int4 :: "int \<Rightarrow> bool" where
  "int4 n \<longleftrightarrow> - 2147483648 \<le> n \<and> n \<le> 2147483647"

text \<open>
  What a column \<^verbatim>\<open>decimal(10, 2)\<close> stores for a value: the value rounded to two decimal
  places, a tie away from zero.
\<close>

definition decimal_10_2 :: "rat \<Rightarrow> rat" where
  "decimal_10_2 x =
     (if 0 \<le> x then of_int \<lfloor>x * 100 + 1 / 2\<rfloor> / 100
      else - (of_int \<lfloor>- x * 100 + 1 / 2\<rfloor> / 100))"

section \<open>Storage operations (server/storage.ts)\<close>

text \<open>
  An operation takes the database and returns its result with the database it leaves.
  A rejected promise is \<open>Inl\<close>; the database returned with it holds the writes made
  before the failure, since no operation opens a transaction. An operation that awaits
  several statements is their composition in the order of the code, with no statement of
  another request between them; \<open>createStockMovement_interleaved\<close> and
  \<open>postBills_interleaved\<close> below are schedules of two requests whose statements
  alternate.
\<close>

subsection \<open>Inventory and stock movements\<close>

definition getInventoryByItem :: "db \<Rightarrow> ident \<Rightarrow> inventory_row option" where
  "getInventoryByItem s itemId = find (\<lambda>r. inv_itemId r = itemId) (inventory s)"

text \<open>
  The stock that \<^verbatim>\<open>getItems\<close> reports for an item, \<^verbatim>\<open>inv?.quantity || 0\<close>: 0 for an item
  with no inventory row.
\<close>

definition currentStock :: "db \<Rightarrow> ident \<Rightarrow> int" where
  "currentStock s itemId =
     (case getInventoryByItem s itemId of None \<Rightarrow> 0 | Some row \<Rightarrow> inv_quantity row)"

text \<open>
  \<^verbatim>\<open>updateInventory\<close>: the statement is rejected when the quantity does not fit the
  \<^verbatim>\<open>integer\<close> column.
\<close>

definition updateInventory ::
  "db \<Rightarrow> ident \<Rightarrow> int \<Rightarrow> db_error + (inventory_row option \<times> db)" where
  "updateInventory s itemId quantity =
     (if \<not> int4 quantity then Inl IntegerOutOfRange
      else (let rows = map (\<lambda>r. if inv_itemId r = itemId then r\<lparr>inv_quantity := quantity\<rparr>
                                 else r)
                           (inventory s)
            in Inr (find (\<lambda>r. inv_itemId r = itemId) rows, s\<lparr>inventory := rows\<rparr>)))"

text \<open>\<^verbatim>\<open>db.insert(stockMovements).values(movement).returning()\<close>\<close>

definition insertStockMovement ::
  "db \<Rightarrow> insert_stock_movement \<Rightarrow> db_error + (stock_movement \<times> db)" where
  "insertStockMovement s movement =
     (if ism_itemId movement \<in> set (items s)
      then (let row = \<lparr>sm_id = nextId s, sm_itemId = ism_itemId movement,
                       sm_type = ism_type movement, sm_quantity = ism_quantity movement,
                       sm_reason = ism_reason movement\<rparr>
            in Inr (row, s\<lparr>stockMovements := stockMovements s @ [row],
                           nextId := Suc (nextId s)\<rparr>))
      else Inl ForeignKeyViolation)"

definition createStockMovement ::
  "db \<Rightarrow> insert_stock_movement \<Rightarrow> (db_error + stock_movement) \<times> db" where
  "createStockMovement s movement =
     (case insertStockMovement s movement of
        Inl e \<Rightarrow> (Inl e, s)
      | Inr (newMovement, s1) \<Rightarrow>
          (case getInventoryByItem s1 (ism_itemId movement) of
             None \<Rightarrow> (Inr newMovement, s1)
           | Some currentInventory \<Rightarrow>
               (let newQuantity =
                      (if ism_type movement = ''purchase''
                       then inv_quantity currentInventory + ism_quantity movement
                       else if ism_type movement = ''sale''
                       then inv_quantity currentInventory - ism_quantity movement
                       else if ism_type movement = ''adjustment''
                       then ism_quantity movement
                       else inv_quantity currentInventory)
                in (case updateInventory s1 (ism_itemId movement) (max 0 newQuantity) of
                      Inl e \<Rightarrow> (Inl e, s1)
                    | Inr (_, s2) \<Rightarrow> (Inr newMovement, s2)))))"

text \<open>
  The row that the insert of \<^verbatim>\<open>createStockMovement\<close> returns, and the quantity that its
  update writes when the inventory row it read held \<open>q\<close>.
\<close>

definition new_movement :: "db \<Rightarrow> insert_stock_movement \<Rightarrow> stock_movement" where
  "new_movement s m = \<lparr>sm_id = nextId s, sm_itemId = ism_itemId m, sm_type = ism_type m,
                        sm_quantity = ism_quantity m, sm_reason = ism_reason m\<rparr>"

definition new_quantity :: "int \<Rightarrow> insert_stock_movement \<Rightarrow> int" where
  "new_quantity q m =
     max 0 (if ism_type m = ''purchase'' then q + ism_quantity m
            else if ism_type m = ''sale'' then q - ism_quantity m
            else if ism_type m = ''adjustment'' then ism_quantity m
            else q)"

text \<open>
  Two calls of \<^verbatim>\<open>createStockMovement\<close> in flight together, in the schedule where both
  insert their ledger row, then both read the inventory row, then both update it. A call
  whose insert is rejected ends there; a call that read no row, or whose update is
  rejected, updates nothing. The result is the database the two calls leave.
\<close>

definition updateAfterRead :: "db \<Rightarrow> inventory_row option \<Rightarrow> insert_stock_movement \<Rightarrow> db" where
  "updateAfterRead s currentInventory movement =
     (case currentInventory of
        None \<Rightarrow> s
      | Some current \<Rightarrow>
          (case updateInventory s (ism_itemId movement)
                  (new_quantity (inv_quantity current) movement) of
             Inl e \<Rightarrow> s
           | Inr (_, s') \<Rightarrow> s'))"

definition createStockMovement_interleaved ::
  "db \<Rightarrow> insert_stock_movement \<Rightarrow> insert_stock_movement \<Rightarrow> db" where
  "createStockMovement_interleaved s movementA movementB =
     (let insertedA = insertStockMovement s movementA;
          s1 = (case insertedA of Inl e \<Rightarrow> s | Inr (_, s') \<Rightarrow> s');
          insertedB = insertStockMovement s1 movementB;
          s2 = (case insertedB of Inl e \<Rightarrow> s1 | Inr (_, s') \<Rightarrow> s');
          currentA = (case insertedA of
                        Inl e \<Rightarrow> None
                      | Inr _ \<Rightarrow> getInventoryByItem s2 (ism_itemId movementA));
          currentB = (case insertedB of
                        Inl e \<Rightarrow> None
                      | Inr _ \<Rightarrow> getInventoryByItem s2 (ism_itemId movementB));
          s3 = updateAfterRead s2 currentA movementA
      in updateAfterRead s3 currentB movementB)"

subsection \<open>Bills\<close>

text \<open>
  \<^verbatim>\<open>getBill\<close>: the bill joined to its customer, with the bill items joined to their items.
  The customer's and the items' own columns are not part of the model.
\<close>

definition getBill :: "db \<Rightarrow> ident \<Rightarrow> (bill \<times> bill_item list) option" where
  "getBill s rid =
     (case find (\<lambda>b. bill_id b = rid \<and> bill_customerId b \<in> set (customers s)) (bills s) of
        None \<Rightarrow> None
      | Some b \<Rightarrow>
          Some (b, filter (\<lambda>i. bi_billId i = rid \<and> bi_itemId i \<in> set (items s)) (billItems s)))"

text \<open>
  \<^verbatim>\<open>db.insert(bills).values(bill).returning()\<close>; the status column defaults to
  \<^verbatim>\<open>pending\<close>, the decimal columns store the rounded amounts.
\<close>

definition insertBill :: "db \<Rightarrow> insert_bill \<Rightarrow> db_error + (bill \<times> db)" where
  "insertBill s b =
     (if ib_billNumber b \<in> set (map billNumber (bills s)) then Inl UniqueViolation
      else if ib_customerId b \<notin> set (customers s) \<or> ib_createdBy b \<notin> set (users s)
      then Inl ForeignKeyViolation
      else (let row = \<lparr>bill_id = nextId s, billNumber = ib_billNumber b,
                       bill_customerId = ib_customerId b,
                       bill_subtotal = decimal_10_2 (ib_subtotal b),
                       bill_gstAmount = decimal_10_2 (ib_gstAmount b),
                       bill_total = decimal_10_2 (ib_total b),
                       bill_status = (case ib_status b of None \<Rightarrow> ''pending'' | Some st \<Rightarrow> st),
                       bill_createdBy = ib_createdBy b\<rparr>
            in Inr (row, s\<lparr>bills := bills s @ [row], nextId := Suc (nextId s)\<rparr>)))"

text \<open>
  \<^verbatim>\<open>db.insert(billItems).values(billItemsWithBillId)\<close>: one statement for all the rows, each
  row the bill's id with a submitted line.
\<close>

definition insertBillItems :: "db \<Rightarrow> (ident \<times> insert_bill_item) list \<Rightarrow> db_error + db" where
  "insertBillItems s vs =
     (if vs = [] then Inl EmptyValues
      else if list_all (\<lambda>(billId, i). billId \<in> set (map bill_id (bills s))
                                      \<and> ibi_itemId i \<in> set (items s)) vs
      then Inr (s\<lparr>billItems := billItems s @
                     map (\<lambda>(k, (billId, i)).
                            \<lparr>bi_id = k, bi_billId = billId, bi_itemId = ibi_itemId i,
                             bi_quantity = ibi_quantity i,
                             bi_rate = decimal_10_2 (ibi_rate i),
                             bi_amount = decimal_10_2 (ibi_amount i)\<rparr>)
                         (zip [nextId s ..< nextId s + length vs] vs),
                   nextId := nextId s + length vs\<rparr>)
      else Inl ForeignKeyViolation)"

text \<open>The loop of \<^verbatim>\<open>createBill\<close>: one \<^verbatim>\<open>sale\<close> movement per line; an exception ends it.\<close>

fun saleMovements :: "db \<Rightarrow> string \<Rightarrow> insert_bill_item list \<Rightarrow> (db_error + unit) \<times> db" where
  "saleMovements s number [] = (Inr (), s)"
| "saleMovements s number (billItem # rest) =
     (case createStockMovement s
             \<lparr>ism_itemId = ibi_itemId billItem, ism_type = ''sale'',
              ism_quantity = ibi_quantity billItem,
              ism_reason = Some (''Sale - Bill '' @ number)\<rparr> of
        (Inl e, s') \<Rightarrow> (Inl e, s')
      | (Inr _, s') \<Rightarrow> saleMovements s' number rest)"

definition createBill ::
  "db \<Rightarrow> insert_bill \<Rightarrow> insert_bill_item list
     \<Rightarrow> (db_error + (bill \<times> bill_item list) option) \<times> db" where
  "createBill s b billItemsData =
     (case insertBill s b of
        Inl e \<Rightarrow> (Inl e, s)
      | Inr (newBill, s1) \<Rightarrow>
          (case insertBillItems s1 (map (\<lambda>i. (bill_id newBill, i)) billItemsData) of
             Inl e \<Rightarrow> (Inl e, s1)
           | Inr s2 \<Rightarrow>
               (case saleMovements s2 (billNumber newBill) billItemsData of
                  (Inl e, s3) \<Rightarrow> (Inl e, s3)
                | (Inr _, s3) \<Rightarrow> (Inr (getBill s3 (bill_id newBill)), s3))))"

definition updateBillStatus :: "db \<Rightarrow> ident \<Rightarrow> string \<Rightarrow> bill option \<times> db" where
  "updateBillStatus s rid status =
     (let rows = map (\<lambda>b. if bill_id b = rid then b\<lparr>bill_status := status\<rparr> else b) (bills s)
      in (find (\<lambda>b. bill_id b = rid) rows, s\<lparr>bills := rows\<rparr>))"

definition getNextBillNumber :: "db \<Rightarrow> string \<times> db" where
  "getNextBillNumber s =
     (case rev (bills s) of
        [] \<Rightarrow> (''INV-2024-001'', s)
      | lastBill # _ \<Rightarrow>
          (let lastNumber = parseInt_opt (js_index (js_split CHR ''-'' (billNumber lastBill)) 2)
           in (''INV-2024-'' @ padStart 3 CHR ''0'' (js_String (js_succ lastNumber)), s)))"

subsection \<open>Purchases\<close>

definition getPurchase :: "db \<Rightarrow> ident \<Rightarrow> (purchase \<times> purchase_item list) option" where
  "getPurchase s rid =
     (case find (\<lambda>p. pur_id p = rid \<and> pur_vendorId p \<in> set (vendors s)) (purchases s) of
        None \<Rightarrow> None
      | Some p \<Rightarrow>
          Some (p, filter (\<lambda>i. pi_purchaseId i = rid \<and> pi_itemId i \<in> set (items s))
                          (purchaseItems s)))"

definition insertPurchase :: "db \<Rightarrow> insert_purchase \<Rightarrow> db_error + (purchase \<times> db)" where
  "insertPurchase s p =
     (if ip_purchaseNumber p \<in> set (map purchaseNumber (purchases s)) then Inl UniqueViolation
      else if ip_vendorId p \<notin> set (vendors s) \<or> ip_createdBy p \<notin> set (users s)
      then Inl ForeignKeyViolation
      else (let row = \<lparr>pur_id = nextId s, purchaseNumber = ip_purchaseNumber p,
                       pur_vendorId = ip_vendorId p, pur_total = decimal_10_2 (ip_total p),
                       pur_createdBy = ip_createdBy p\<rparr>
            in Inr (row, s\<lparr>purchases := purchases s @ [row], nextId := Suc (nextId s)\<rparr>)))"

text \<open>The submitted \<^verbatim>\<open>purchaseId\<close> of a line is overwritten with the new purchase's id.\<close>

definition insertPurchaseItems ::
  "db \<Rightarrow> (ident \<times> insert_purchase_item) list \<Rightarrow> db_error + db" where
  "insertPurchaseItems s vs =
     (if vs = [] then Inl EmptyValues
      else if list_all (\<lambda>(purchaseId, i). purchaseId \<in> set (map pur_id (purchases s))
                                          \<and> ipi_itemId i \<in> set (items s)) vs
      then Inr (s\<lparr>purchaseItems := purchaseItems s @
                     map (\<lambda>(k, (purchaseId, i)).
                            \<lparr>pi_id = k, pi_purchaseId = purchaseId, pi_itemId = ipi_itemId i,
                             pi_quantity = ipi_quantity i,
                             pi_rate = decimal_10_2 (ipi_rate i),
                             pi_amount = decimal_10_2 (ipi_amount i)\<rparr>)
                         (zip [nextId s ..< nextId s + length vs] vs),
                   nextId := nextId s + length vs\<rparr>)
      else Inl ForeignKeyViolation)"

fun purchaseMovements ::
  "db \<Rightarrow> string \<Rightarrow> insert_purchase_item list \<Rightarrow> (db_error + unit) \<times> db" where
  "purchaseMovements s number [] = (Inr (), s)"
| "purchaseMovements s number (purchaseItem # rest) =
     (case createStockMovement s
             \<lparr>ism_itemId = ipi_itemId purchaseItem, ism_type = ''purchase'',
              ism_quantity = ipi_quantity purchaseItem,
              ism_reason = Some (''Purchase - '' @ number)\<rparr> of
        (Inl e, s') \<Rightarrow> (Inl e, s')
      | (Inr _, s') \<Rightarrow> purchaseMovements s' number rest)"

definition createPurchase ::
  "db \<Rightarrow> insert_purchase \<Rightarrow> insert_purchase_item list
     \<Rightarrow> (db_error + (purchase \<times> purchase_item list) option) \<times> db" where
  "createPurchase s p purchaseItemsData =
     (case insertPurchase s p of
        Inl e \<Rightarrow> (Inl e, s)
      | Inr (newPurchase, s1) \<Rightarrow>
          (case insertPurchaseItems s1 (map (\<lambda>i. (pur_id newPurchase, i)) purchaseItemsData) of
             Inl e \<Rightarrow> (Inl e, s1)
           | Inr s2 \<Rightarrow>
               (case purchaseMovements s2 (purchaseNumber newPurchase) purchaseItemsData of
                  (Inl e, s3) \<Rightarrow> (Inl e, s3)
                | (Inr _, s3) \<Rightarrow> (Inr (getPurchase s3 (pur_id newPurchase)), s3))))"

definition getNextPurchaseNumber :: "db \<Rightarrow> string \<times> db" where
  "getNextPurchaseNumber s =
     (case rev (purchases s) of
        [] \<Rightarrow> (''PUR-2024-001'', s)
      | lastPurchase # _ \<Rightarrow>
          (let lastNumber =
                 parseInt_opt (js_index (js_split CHR ''-'' (purchaseNumber lastPurchase)) 2)
           in (''PUR-2024-'' @ padStart 3 CHR ''0'' (js_String (js_succ lastNumber)), s)))"


section \<open>Route handlers (server/routes.ts)\<close>

text \<open>
  A handler answers with a status code and a JSON body, or with a status code and a
  message. Request bodies are typed: what the generated schemas reject for its type alone
  (a missing field, a string for a number, a fractional quantity) is not an input here.
\<close>

datatype 'a response = Json nat 'a | Message nat string

fun status_code :: "'a response \<Rightarrow> nat" where
  "status_code (Json c _) = c"
| "status_code (Message c _) = c"

record bill_data =
  bd_customerId :: ident
  bd_subtotal :: rat
  bd_gstAmount :: rat
  bd_total :: rat
  bd_status :: "string option"

record purchase_data =
  pd_vendorId :: ident
  pd_total :: rat

text \<open>\<^verbatim>\<open>insertBillSchema\<close>: subtotal, GST amount and total are numbers \<open>\<ge> 0\<close>.\<close>

definition insertBillSchema_ok :: "insert_bill \<Rightarrow> bool" where
  "insertBillSchema_ok b \<longleftrightarrow> 0 \<le> ib_subtotal b \<and> 0 \<le> ib_gstAmount b \<and> 0 \<le> ib_total b"

text \<open>\<^verbatim>\<open>insertBillItemSchema\<close>: an integer quantity \<open>\<ge> 1\<close>, rate and amount \<open>\<ge> 0\<close>.\<close>

definition insertBillItemSchema_ok :: "insert_bill_item \<Rightarrow> bool" where
  "insertBillItemSchema_ok i \<longleftrightarrow> 1 \<le> ibi_quantity i \<and> 0 \<le> ibi_rate i \<and> 0 \<le> ibi_amount i"

text \<open>\<^verbatim>\<open>PATCH /api/inventory/:itemId\<close>\<close>

definition patchInventory :: "db \<Rightarrow> ident \<Rightarrow> int \<Rightarrow> inventory_row option response \<times> db" where
  "patchInventory s itemId quantity =
     (case updateInventory s itemId quantity of
        Inl e \<Rightarrow> (Message 500 ''Failed to update inventory'', s)
      | Inr (row, s') \<Rightarrow> (Json 200 row, s'))"


text \<open>
  \<^verbatim>\<open>POST /api/bills\<close> awaits \<^verbatim>\<open>getNextBillNumber\<close> first; \<open>postBills_rest\<close> is the handler
  from there on, with the number it was given.
\<close>

definition postBills_rest ::
  "db \<Rightarrow> ident \<Rightarrow> string \<Rightarrow> bill_data \<Rightarrow> insert_bill_item list
     \<Rightarrow> (bill \<times> bill_item list) option response \<times> db" where
  "postBills_rest s userId number billData billItemsData =
     (let validatedBill =
            \<lparr>ib_billNumber = number, ib_customerId = bd_customerId billData,
             ib_subtotal = bd_subtotal billData, ib_gstAmount = bd_gstAmount billData,
             ib_total = bd_total billData, ib_status = bd_status billData,
             ib_createdBy = userId\<rparr>
      in if \<not> insertBillSchema_ok validatedBill then (Message 400 ''Invalid bill data'', s)
         else if \<not> list_all insertBillItemSchema_ok billItemsData
         then (Message 400 ''Invalid bill data'', s)
         else (case createBill s validatedBill billItemsData of
                 (Inl e, s') \<Rightarrow> (Message 400 ''Invalid bill data'', s')
               | (Inr b, s') \<Rightarrow> (Json 201 b, s')))"

definition postBills ::
  "db \<Rightarrow> ident \<Rightarrow> bill_data \<Rightarrow> insert_bill_item list
     \<Rightarrow> (bill \<times> bill_item list) option response \<times> db" where
  "postBills s userId billData billItemsData =
     (case getNextBillNumber s of
        (number, s0) \<Rightarrow> postBills_rest s0 userId number billData billItemsData)"


text \<open>
  The handlers of \<^verbatim>\<open>GET /api/bills/next-number\<close> and \<^verbatim>\<open>GET /api/purchases/next-number\<close>
  are registered after those of \<^verbatim>\<open>GET /api/bills/:id\<close> and \<^verbatim>\<open>GET /api/purchases/:id\<close>,
  which match the same paths and answer first: the two handlers are never run and are
  not part of the model. \<^verbatim>\<open>getNextBillNumber\<close> and \<^verbatim>\<open>getNextPurchaseNumber\<close> are called
  by \<^verbatim>\<open>POST /api/bills\<close> and \<^verbatim>\<open>POST /api/purchases\<close>.
\<close>

text \<open>
  \<^verbatim>\<open>POST /api/purchases\<close>: \<^verbatim>\<open>insertPurchaseSchema\<close> and \<^verbatim>\<open>insertPurchaseItemSchema\<close> are
  generated schemas with no refinement.
\<close>

definition postPurchases_rest ::
  "db \<Rightarrow> ident \<Rightarrow> string \<Rightarrow> purchase_data \<Rightarrow> insert_purchase_item list
     \<Rightarrow> (purchase \<times> purchase_item list) option response \<times> db" where
  "postPurchases_rest s userId number purchaseData purchaseItemsData =
     (case createPurchase s
             \<lparr>ip_purchaseNumber = number, ip_vendorId = pd_vendorId purchaseData,
              ip_total = pd_total purchaseData, ip_createdBy = userId\<rparr>
             purchaseItemsData of
        (Inl e, s') \<Rightarrow> (Message 400 ''Invalid purchase data'', s')
      | (Inr p, s') \<Rightarrow> (Json 201 p, s'))"

definition postPurchases ::
  "db \<Rightarrow> ident \<Rightarrow> purchase_data \<Rightarrow> insert_purchase_item list
     \<Rightarrow> (purchase \<times> purchase_item list) option response \<times> db" where
  "postPurchases s userId purchaseData purchaseItemsData =
     (case getNextPurchaseNumber s of
        (number, s0) \<Rightarrow> postPurchases_rest s0 userId number purchaseData purchaseItemsData)"

text \<open>
  Two requests \<^verbatim>\<open>POST /api/bills\<close> in flight together. Each \<^verbatim>\<open>await\<close> of a handler lets
  the other one run; in this schedule both handlers read their number before either
  writes its bill.
\<close>

definition postBills_interleaved ::
  "db \<Rightarrow> ident \<Rightarrow> bill_data \<Rightarrow> insert_bill_item list
      \<Rightarrow> ident \<Rightarrow> bill_data \<Rightarrow> insert_bill_item list
      \<Rightarrow> (string \<times> nat) \<times> (string \<times> nat) \<times> db" where
  "postBills_interleaved s userA dataA itemsA userB dataB itemsB =
     (case getNextBillNumber s of (numberA, s1) \<Rightarrow>
      case getNextBillNumber s1 of (numberB, s2) \<Rightarrow>
      case postBills_rest s2 userA numberA dataA itemsA of (respA, s3) \<Rightarrow>
      case postBills_rest s3 userB numberB dataB itemsB of (respB, s4) \<Rightarrow>
        ((numberA, status_code respA), (numberB, status_code respB), s4))"

section \<open>The properties the specification states, in its own words\<close>

text \<open>
  Replaying a ledger from the quantity 0: a purchase adds, a sale subtracts, an adjustment
  replaces, and the result of each step is clamped at 0.
\<close>

definition replay_step :: "int \<Rightarrow> stock_movement \<Rightarrow> int" where
  "replay_step q m =
     max 0 (if sm_type m = ''purchase'' then q + sm_quantity m
            else if sm_type m = ''sale'' then q - sm_quantity m
            else if sm_type m = ''adjustment'' then sm_quantity m
            else q)"

definition replay :: "stock_movement list \<Rightarrow> int" where
  "replay ms = foldl replay_step 0 ms"

definition ledger_of :: "db \<Rightarrow> ident \<Rightarrow> stock_movement list" where
  "ledger_of s itemId = filter (\<lambda>m. sm_itemId m = itemId) (stockMovements s)"

text \<open>
  For every item, the projected quantity (\<open>currentStock\<close>: the quantity of the item's
  inventory row, 0 for an item with no row) is the replay of the item's movements.
\<close>

definition projection_consistent :: "db \<Rightarrow> bool" where
  "projection_consistent s \<longleftrightarrow>
     list_all (\<lambda>i. currentStock s i = replay (ledger_of s i)) (items s)"

text \<open>Every item has an inventory row, as \<^verbatim>\<open>createItem\<close> gives it one.\<close>

definition every_item_has_row :: "db \<Rightarrow> bool" where
  "every_item_has_row s \<longleftrightarrow> list_all (\<lambda>i. getInventoryByItem s i \<noteq> None) (items s)"

text \<open>
  The numbering the specification describes: the highest suffix issued in the series for
  the current year, incremented and padded to three digits, \<open>001\<close> when the year has
  no document yet.
\<close>

definition issued_suffixes :: "string \<Rightarrow> nat \<Rightarrow> string list \<Rightarrow> int list" where
  "issued_suffixes prefix year numbers =
     concat (map (\<lambda>n. case js_split CHR ''-'' n of
                         [p, y, k] \<Rightarrow>
                           (if p = prefix \<and> parseInt y = Some (int year)
                            then (case parseInt k of None \<Rightarrow> [] | Some v \<Rightarrow> [v])
                            else [])
                       | _ \<Rightarrow> [])
                 numbers)"

definition spec_next_number :: "string \<Rightarrow> nat \<Rightarrow> string list \<Rightarrow> string" where
  "spec_next_number prefix year numbers =
     prefix @ ''-'' @ js_String (Some (int year)) @ ''-'' @
     padStart 3 CHR ''0''
       (js_String (Some (foldl max 0 (issued_suffixes prefix year numbers) + 1)))"


section \<open>Auxiliary definitions\<close>

text \<open>The columns of a row other than its generated id.\<close>

definition movement_fields :: "stock_movement \<Rightarrow> ident \<times> string \<times> int \<times> string option" where
  "movement_fields mv = (sm_itemId mv, sm_type mv, sm_quantity mv, sm_reason mv)"

definition bill_item_fields :: "bill_item \<Rightarrow> ident \<times> ident \<times> int \<times> rat \<times> rat" where
  "bill_item_fields l = (bi_billId l, bi_itemId l, bi_quantity l, bi_rate l, bi_amount l)"

definition purchase_item_fields :: "purchase_item \<Rightarrow> ident \<times> ident \<times> int \<times> rat \<times> rat" where
  "purchase_item_fields l =
     (pi_purchaseId l, pi_itemId l, pi_quantity l, pi_rate l, pi_amount l)"

subsection \<open>Example states\<close>

text \<open>
  A shop with one item (id 1, stock 0 as \<^verbatim>\<open>createItem\<close> leaves it), one customer (2), one
  vendor (3) and one user (4); a bill header and a line of a submission.
\<close>

definition shop :: db where
  "shop = \<lparr>items = [1], customers = [2], vendors = [3], users = [4],
           inventory = [\<lparr>inv_itemId = 1, inv_quantity = 0\<rparr>], stockMovements = [],
           bills = [], billItems = [], purchases = [], purchaseItems = [], nextId = 10\<rparr>"

definition header :: bill_data where
  "header = \<lparr>bd_customerId = 2, bd_subtotal = 200, bd_gstAmount = 36, bd_total = 236,
             bd_status = None\<rparr>"

definition line :: "ident \<Rightarrow> int \<Rightarrow> insert_bill_item" where
  "line i q = \<lparr>ibi_itemId = i, ibi_quantity = q, ibi_rate = 100, ibi_amount = 100 * of_int q\<rparr>"

definition stocked :: db where
  "stocked = shop\<lparr>inventory := [\<lparr>inv_itemId = 1, inv_quantity = 5\<rparr>],
                  stockMovements := [\<lparr>sm_id = 10, sm_itemId = 1, sm_type = ''purchase'',
                                      sm_quantity = 5, sm_reason = None\<rparr>],
                  nextId := 11\<rparr>"

definition movement :: "ident \<Rightarrow> string \<Rightarrow> int \<Rightarrow> insert_stock_movement" where
  "movement i t q = \<lparr>ism_itemId = i, ism_type = t, ism_quantity = q, ism_reason = None\<rparr>"

definition invoice :: "string \<Rightarrow> insert_bill" where
  "invoice n = \<lparr>ib_billNumber = n, ib_customerId = 2, ib_subtotal = 200, ib_gstAmount = 36,
                ib_total = 236, ib_status = None, ib_createdBy = 4\<rparr>"

definition purchase_order :: "string \<Rightarrow> insert_purchase" where
  "purchase_order n = \<lparr>ip_purchaseNumber = n, ip_vendorId = 3, ip_total = 500, ip_createdBy = 4\<rparr>"

definition order_line :: "ident \<Rightarrow> int \<Rightarrow> insert_purchase_item" where
  "order_line i q = \<lparr>ipi_purchaseId = 0, ipi_itemId = i, ipi_quantity = q, ipi_rate = 50,
                     ipi_amount = 50 * of_int q\<rparr>"

text \<open>The shop after bill \<^verbatim>\<open>INV-2024-007\<close> was paid and purchase \<^verbatim>\<open>PUR-2024-041\<close> was made.\<close>

definition trading :: db where
  "trading = shop\<lparr>bills := [\<lparr>bill_id = 10, billNumber = ''INV-2024-007'', bill_customerId = 2,
                               bill_subtotal = 200, bill_gstAmount = 36, bill_total = 236,
                               bill_status = ''paid'', bill_createdBy = 4\<rparr>],
                  purchases := [\<lparr>pur_id = 11, purchaseNumber = ''PUR-2024-041'',
                                   pur_vendorId = 3, pur_total = 500, pur_createdBy = 4\<rparr>],
                  nextId := 12\<rparr>"

text \<open>The shop with the item's inventory row at the upper end of the \<^verbatim>\<open>integer\<close> column.\<close>

definition brimful :: db where
  "brimful = shop\<lparr>inventory := [\<lparr>inv_itemId = 1, inv_quantity = 2147483647\<rparr>],
                  stockMovements := [\<lparr>sm_id = 10, sm_itemId = 1, sm_type = ''adjustment'',
                                      sm_quantity = 2147483647, sm_reason = None\<rparr>],
                  nextId := 11\<rparr>"

section \<open>Lemmas\<close>

declare nat_digits.simps [simp del]

lemma js_split_append:
  "c \<notin> set a \<Longrightarrow> js_split c (a @ c # rest) = a # js_split c rest"
  by (induction a) auto

lemma js_split_no_sep: "c \<notin> set a \<Longrightarrow> js_split c a = [a]"
  by (induction a) auto

lemma js_split_three:
  assumes "c \<notin> set a" "c \<notin> set b" "c \<notin> set d"
  shows "js_split c (a @ c # b @ c # d) = [a, b, d]"
  using assms by (simp add: js_split_append js_split_no_sep)

lemma of_char_dec_digit: "d < 10 \<Longrightarrow> (of_char (dec_digit d) :: nat) = 48 + d"
  by (simp add: dec_digit_def)

lemma digit_val_dec_digit: "d < 10 \<Longrightarrow> digit_val (dec_digit d) = Some d"
  by (simp add: digit_val_def of_char_dec_digit)

lemma nat_digits_lt: "d \<in> set (nat_digits n) \<Longrightarrow> d < 10"
proof (induction n arbitrary: d rule: nat_digits.induct)
  case (1 n)
  show ?case
  proof (cases "n < 10")
    case True
    with "1.prems" show ?thesis by (simp add: nat_digits.simps [of n])
  next
    case False
    with "1.prems" "1.IH" show ?thesis by (auto simp: nat_digits.simps [of n])
  qed
qed

lemma nat_digits_nonempty: "nat_digits n \<noteq> []"
  by (simp add: nat_digits.simps [of n])

lemma take_digits_dec:
  "\<forall>d\<in>set ds. d < 10 \<Longrightarrow> take_digits 10 (map dec_digit ds) = ds"
  by (induction ds) (simp_all add: digit_val_dec_digit)

lemma digits_value_snoc: "digits_value r (ds @ [d]) = digits_value r ds * r + d"
  by (simp add: digits_value_def)

lemma digits_value_nat_digits: "digits_value 10 (nat_digits n) = n"
proof (induction n rule: nat_digits.induct)
  case (1 n)
  show ?case
  proof (cases "n < 10")
    case True
    then show ?thesis by (simp add: nat_digits.simps [of n] digits_value_def)
  next
    case False
    with "1.IH" show ?thesis
      by (simp add: nat_digits.simps [of n] digits_value_snoc)
  qed
qed

lemma foldl_zeros: "foldl (\<lambda>a d. a * r + d) 0 (replicate k (0::nat)) = 0"
  by (induction k) simp_all

lemma digits_value_zeros: "digits_value r (replicate k 0 @ ds) = digits_value r ds"
  by (simp add: digits_value_def foldl_zeros)

lemma zero_char: "CHR ''0'' = dec_digit 0"
  unfolding dec_digit_def by code_simp

lemma padStart_dec:
  "padStart 3 CHR ''0'' (map dec_digit ds) = map dec_digit (replicate (3 - length ds) 0 @ ds)"
  by (simp add: padStart_def zero_char)

lemma dec_digit_plain:
  assumes "d < 10"
  shows "\<not> is_ws (dec_digit d)" "dec_digit d \<noteq> CHR ''-''" "dec_digit d \<noteq> CHR ''+''"
        "dec_digit d \<noteq> CHR ''x''" "dec_digit d \<noteq> CHR ''X''"
proof -
  have n: "(of_char (dec_digit d) :: nat) = 48 + d" using assms by (rule of_char_dec_digit)
  show "\<not> is_ws (dec_digit d)"
  proof
    assume "is_ws (dec_digit d)"
    then have "(of_char (dec_digit d) :: nat) \<in> {9, 10, 11, 12, 13, 32}"
      by (auto simp: is_ws_def)
    with n show False by auto
  qed
  show "dec_digit d \<noteq> CHR ''-''" using n assms by auto
  show "dec_digit d \<noteq> CHR ''+''" using n assms by auto
  show "dec_digit d \<noteq> CHR ''x''" using n assms by auto
  show "dec_digit d \<noteq> CHR ''X''" using n assms by auto
qed

lemma parseInt_dec:
  assumes "ds \<noteq> []" "\<forall>d\<in>set ds. d < 10"
  shows "parseInt (map dec_digit ds) = Some (int (digits_value 10 ds))"
proof -
  obtain d rest where ds: "ds = d # rest" using assms(1) by (cases ds) auto
  have d: "d < 10" using assms(2) ds by simp
  have nohex: "take 2 (map dec_digit ds) \<noteq> ''0x'' \<and> take 2 (map dec_digit ds) \<noteq> ''0X''"
  proof (cases rest)
    case Nil
    then show ?thesis using ds by simp
  next
    case (Cons e rest')
    then have "e < 10" using assms(2) ds by simp
    then show ?thesis using ds Cons dec_digit_plain(4,5) [of e] by auto
  qed
  have ws: "dropWhile is_ws (map dec_digit ds) = map dec_digit ds"
    using ds dec_digit_plain(1) [OF d] by simp
  have td: "take_digits 10 (map dec_digit ds) = ds" using assms(2) by (rule take_digits_dec)
  have sg: "(case map dec_digit ds of [] \<Rightarrow> (1::int, map dec_digit ds)
             | c # r \<Rightarrow> if c = CHR ''-'' then (- 1, r) else if c = CHR ''+'' then (1, r)
                        else (1, map dec_digit ds)) = (1, map dec_digit ds)"
    using ds dec_digit_plain(2,3) [OF d] by simp
  show ?thesis
    unfolding parseInt_def ws Let_def sg using nohex td assms(1) by simp
qed

lemma parseInt_padStart:
  "parseInt (padStart 3 CHR ''0'' (js_String (Some (int k)))) = Some (int k)"
proof -
  let ?ds = "replicate (3 - length (nat_digits k)) 0 @ nat_digits k"
  have "js_String (Some (int k)) = map dec_digit (nat_digits k)"
    by (simp add: js_String_def)
  then have eq: "padStart 3 CHR ''0'' (js_String (Some (int k))) = map dec_digit ?ds"
    by (simp only: padStart_dec length_map)
  have ne: "?ds \<noteq> []" using nat_digits_nonempty by simp
  have lt: "\<forall>d\<in>set ?ds. d < 10" using nat_digits_lt by auto
  have "parseInt (map dec_digit ?ds) = Some (int (digits_value 10 ?ds))"
    using ne lt by (rule parseInt_dec)
  then show ?thesis
    unfolding eq by (simp only: digits_value_zeros digits_value_nat_digits)
qed

lemma dec_no_dash:
  "CHR ''-'' \<notin> set (padStart 3 CHR ''0'' (js_String (Some (int k))))"
proof -
  have "\<forall>d\<in>set (nat_digits k). dec_digit d \<noteq> CHR ''-''"
    using nat_digits_lt dec_digit_plain(2) by blast
  then show ?thesis by (auto simp: padStart_def js_String_def)
qed


lemma find_map_update:
  "find (\<lambda>r. inv_itemId r = i)
        (map (\<lambda>r. if inv_itemId r = i then r\<lparr>inv_quantity := q\<rparr> else r) rows)
   = map_option (\<lambda>r. r\<lparr>inv_quantity := q\<rparr>) (find (\<lambda>r. inv_itemId r = i) rows)"
  by (induction rows) auto

lemma find_map_update_other:
  "j \<noteq> i \<Longrightarrow>
   find (\<lambda>r. inv_itemId r = j)
        (map (\<lambda>r. if inv_itemId r = i then r\<lparr>inv_quantity := q\<rparr> else r) rows)
   = find (\<lambda>r. inv_itemId r = j) rows"
  by (induction rows) auto



lemma createStockMovement_unknown_item:
  "ism_itemId m \<notin> set (items s) \<Longrightarrow> createStockMovement s m = (Inl ForeignKeyViolation, s)"
  by (simp add: createStockMovement_def insertStockMovement_def)

lemma createStockMovement_no_row:
  assumes "ism_itemId m \<in> set (items s)" "getInventoryByItem s (ism_itemId m) = None"
  shows "createStockMovement s m =
           (Inr (new_movement s m),
            s\<lparr>stockMovements := stockMovements s @ [new_movement s m], nextId := Suc (nextId s)\<rparr>)"
  using assms
  by (simp add: createStockMovement_def insertStockMovement_def getInventoryByItem_def
      new_movement_def Let_def)

lemma createStockMovement_row:
  assumes "ism_itemId m \<in> set (items s)" "getInventoryByItem s (ism_itemId m) = Some cur"
      and "int4 (new_quantity (inv_quantity cur) m)"
  shows "createStockMovement s m =
           (Inr (new_movement s m),
            s\<lparr>stockMovements := stockMovements s @ [new_movement s m], nextId := Suc (nextId s),
              inventory := map (\<lambda>r. if inv_itemId r = ism_itemId m
                                      then r\<lparr>inv_quantity := new_quantity (inv_quantity cur) m\<rparr>
                                      else r) (inventory s)\<rparr>)"
  using assms
  by (simp add: createStockMovement_def insertStockMovement_def getInventoryByItem_def
      updateInventory_def new_movement_def new_quantity_def Let_def)

lemma createStockMovement_overflow:
  assumes "ism_itemId m \<in> set (items s)" "getInventoryByItem s (ism_itemId m) = Some cur"
      and "\<not> int4 (new_quantity (inv_quantity cur) m)"
  shows "createStockMovement s m =
           (Inl IntegerOutOfRange,
            s\<lparr>stockMovements := stockMovements s @ [new_movement s m], nextId := Suc (nextId s)\<rparr>)"
  using assms
  by (simp add: createStockMovement_def insertStockMovement_def getInventoryByItem_def
      updateInventory_def new_movement_def new_quantity_def Let_def)

text \<open>What every call for an existing item does, whatever its outcome.\<close>

lemma createStockMovement_recorded:
  assumes "ism_itemId m \<in> set (items s)"
  shows "(fst (createStockMovement s m) = Inr (new_movement s m) \<or>
          fst (createStockMovement s m) = Inl IntegerOutOfRange) \<and>
         stockMovements (snd (createStockMovement s m)) = stockMovements s @ [new_movement s m] \<and>
         items (snd (createStockMovement s m)) = items s \<and>
         bills (snd (createStockMovement s m)) = bills s \<and>
         billItems (snd (createStockMovement s m)) = billItems s \<and>
         purchases (snd (createStockMovement s m)) = purchases s \<and>
         purchaseItems (snd (createStockMovement s m)) = purchaseItems s \<and>
         customers (snd (createStockMovement s m)) = customers s"
proof (cases "getInventoryByItem s (ism_itemId m)")
  case None
  show ?thesis by (simp add: createStockMovement_no_row [OF assms None])
next
  case (Some cur)
  show ?thesis
  proof (cases "int4 (new_quantity (inv_quantity cur) m)")
    case True
    show ?thesis by (simp add: createStockMovement_row [OF assms Some True])
  next
    case False
    show ?thesis by (simp add: createStockMovement_overflow [OF assms Some False])
  qed
qed

lemma createStockMovement_items: "items (snd (createStockMovement s m)) = items s"
proof (cases "ism_itemId m \<in> set (items s)")
  case True
  then show ?thesis using createStockMovement_recorded by simp
next
  case False
  then show ?thesis by (simp add: createStockMovement_unknown_item)
qed

lemma find_map_update_None:
  "find (\<lambda>r. inv_itemId r = j)
        (map (\<lambda>r. if inv_itemId r = i then r\<lparr>inv_quantity := q\<rparr> else r) rows) = None
   \<longleftrightarrow> find (\<lambda>r. inv_itemId r = j) rows = None"
  by (induction rows) auto

lemma createStockMovement_has_row:
  "getInventoryByItem (snd (createStockMovement s m)) j = None
   \<longleftrightarrow> getInventoryByItem s j = None"
proof (cases "ism_itemId m \<in> set (items s)")
  case False
  then show ?thesis by (simp add: createStockMovement_unknown_item)
next
  case True
  show ?thesis
  proof (cases "getInventoryByItem s (ism_itemId m)")
    case None
    show ?thesis
      by (simp add: createStockMovement_no_row [OF True None] getInventoryByItem_def)
  next
    case (Some cur)
    show ?thesis
    proof (cases "int4 (new_quantity (inv_quantity cur) m)")
      case fits: True
      show ?thesis
        by (simp add: createStockMovement_row [OF True Some fits] getInventoryByItem_def
            find_map_update_None)
    next
      case over: False
      show ?thesis
        by (simp add: createStockMovement_overflow [OF True Some over] getInventoryByItem_def)
    qed
  qed
qed

lemma createStockMovement_every_item_has_row:
  "every_item_has_row s \<Longrightarrow> every_item_has_row (snd (createStockMovement s m))"
  by (simp add: every_item_has_row_def createStockMovement_items createStockMovement_has_row)

lemma replay_snoc: "replay (ms @ [mv]) = replay_step (replay ms) mv"
  by (simp add: replay_def)

lemma replay_step_new_movement: "replay_step q (new_movement s m) = new_quantity q m"
  by (simp add: replay_step_def new_movement_def new_quantity_def)

lemma projection_consistent_cong:
  "inventory s' = inventory s \<Longrightarrow> stockMovements s' = stockMovements s \<Longrightarrow>
   items s' = items s \<Longrightarrow> projection_consistent s' = projection_consistent s"
  by (simp add: projection_consistent_def ledger_of_def currentStock_def getInventoryByItem_def)

lemma every_item_has_row_cong:
  "inventory s' = inventory s \<Longrightarrow> items s' = items s \<Longrightarrow>
   every_item_has_row s' = every_item_has_row s"
  by (simp add: every_item_has_row_def getInventoryByItem_def)

lemma find_None_item:
  "find (\<lambda>r. inv_itemId r = i) rows = None \<Longrightarrow> r \<in> set rows \<Longrightarrow> inv_itemId r \<noteq> i"
  by (auto simp: find_None_iff)

lemma ledger_of_snoc:
  "stockMovements s' = stockMovements s @ [mv] \<Longrightarrow>
   ledger_of s' j = (if sm_itemId mv = j then ledger_of s j @ [mv] else ledger_of s j)"
  by (simp add: ledger_of_def)

text \<open>
  A call that is not rejected for the range of the column keeps the agreement of the
  projection with the ledger, when the item it names has an inventory row.
\<close>

lemma createStockMovement_consistent:
  assumes "projection_consistent s"
      and "getInventoryByItem s (ism_itemId m) \<noteq> None"
      and "fst (createStockMovement s m) \<noteq> Inl IntegerOutOfRange"
  shows "projection_consistent (snd (createStockMovement s m))"
proof (cases "ism_itemId m \<in> set (items s)")
  case False
  then show ?thesis using assms(1) by (simp add: createStockMovement_unknown_item)
next
  case True
  let ?i = "ism_itemId m"
  let ?mv = "new_movement s m"
  let ?s' = "snd (createStockMovement s m)"
  obtain cur where cur: "getInventoryByItem s ?i = Some cur" using assms(2) by auto
  have fits: "int4 (new_quantity (inv_quantity cur) m)"
  proof (rule ccontr)
    assume "\<not> int4 (new_quantity (inv_quantity cur) m)"
    then have "fst (createStockMovement s m) = Inl IntegerOutOfRange"
      by (simp add: createStockMovement_overflow [OF True cur])
    with assms(3) show False by simp
  qed
  let ?q = "new_quantity (inv_quantity cur) m"
  have mv_item: "sm_itemId ?mv = ?i" by (simp add: new_movement_def)
  have sm: "stockMovements ?s' = stockMovements s @ [?mv]"
    and iv: "inventory ?s' = map (\<lambda>r. if inv_itemId r = ?i then r\<lparr>inv_quantity := ?q\<rparr> else r)
                                 (inventory s)"
    and it: "items ?s' = items s"
    by (simp_all add: createStockMovement_row [OF True cur fits])
  have inv: "\<And>j. j \<in> set (items s) \<Longrightarrow> currentStock s j = replay (ledger_of s j)"
    using assms(1) by (simp add: projection_consistent_def list_all_iff)
  have q: "inv_quantity cur = replay (ledger_of s ?i)"
    using inv [OF True] cur by (simp add: currentStock_def)
  have "currentStock ?s' j = replay (ledger_of ?s' j)" if j: "j \<in> set (items s)" for j
  proof (cases "j = ?i")
    case same: True
    have "find (\<lambda>r. inv_itemId r = ?i) (inventory s) = Some cur"
      using cur by (simp add: getInventoryByItem_def)
    then have "currentStock ?s' ?i = ?q"
      by (simp add: currentStock_def getInventoryByItem_def iv find_map_update)
    moreover have "replay (ledger_of ?s' ?i) = ?q"
      using ledger_of_snoc [OF sm, of ?i] mv_item
      by (simp add: replay_snoc replay_step_new_movement q)
    ultimately show ?thesis using same by simp
  next
    case other: False
    have "currentStock ?s' j = currentStock s j"
      using other by (simp add: currentStock_def getInventoryByItem_def iv find_map_update_other)
    moreover have "ledger_of ?s' j = ledger_of s j"
      using ledger_of_snoc [OF sm, of j] mv_item other by simp
    ultimately show ?thesis using inv [OF j] by simp
  qed
  then show ?thesis by (simp add: projection_consistent_def list_all_iff it)
qed

lemma every_item_has_row_item:
  "every_item_has_row s \<Longrightarrow> i \<in> set (items s) \<Longrightarrow> getInventoryByItem s i \<noteq> None"
  by (simp add: every_item_has_row_def list_all_iff)

lemma createStockMovement_invariant:
  assumes "projection_consistent s \<and> every_item_has_row s"
      and "fst (createStockMovement s m) \<noteq> Inl IntegerOutOfRange"
  shows "projection_consistent (snd (createStockMovement s m)) \<and>
         every_item_has_row (snd (createStockMovement s m))"
proof (cases "ism_itemId m \<in> set (items s)")
  case False
  then show ?thesis using assms(1) by (simp add: createStockMovement_unknown_item)
next
  case True
  then have "getInventoryByItem s (ism_itemId m) \<noteq> None"
    using assms(1) every_item_has_row_item by blast
  then show ?thesis
    using assms createStockMovement_consistent createStockMovement_every_item_has_row by blast
qed

lemma saleMovements_invariant:
  "projection_consistent s \<and> every_item_has_row s \<Longrightarrow>
   fst (saleMovements s n xs) \<noteq> Inl IntegerOutOfRange \<Longrightarrow>
   projection_consistent (snd (saleMovements s n xs)) \<and>
   every_item_has_row (snd (saleMovements s n xs))"
proof (induction xs arbitrary: s)
  case Nil
  then show ?case by simp
next
  case (Cons x xs)
  let ?m = "\<lparr>ism_itemId = ibi_itemId x, ism_type = ''sale'', ism_quantity = ibi_quantity x,
             ism_reason = Some (''Sale - Bill '' @ n)\<rparr>"
  obtain r s1 where c: "createStockMovement s ?m = (r, s1)"
    by (cases "createStockMovement s ?m")
  show ?case
  proof (cases r)
    case (Inl e)
    then have run: "saleMovements s n (x # xs) = (Inl e, s1)" using c by simp
    then have "e \<noteq> IntegerOutOfRange" using Cons.prems(2) by simp
    then have "fst (createStockMovement s ?m) \<noteq> Inl IntegerOutOfRange" using c Inl by simp
    from createStockMovement_invariant [OF Cons.prems(1) this] show ?thesis
      using run c by simp
  next
    case (Inr mv)
    then have run: "saleMovements s n (x # xs) = saleMovements s1 n xs" using c by simp
    have "fst (createStockMovement s ?m) \<noteq> Inl IntegerOutOfRange" using c Inr by simp
    from createStockMovement_invariant [OF Cons.prems(1) this]
    have inv1: "projection_consistent s1 \<and> every_item_has_row s1" using c by simp
    have "fst (saleMovements s1 n xs) \<noteq> Inl IntegerOutOfRange"
      using Cons.prems(2) run by simp
    from Cons.IH [OF inv1 this] show ?thesis using run by simp
  qed
qed

lemma purchaseMovements_invariant:
  "projection_consistent s \<and> every_item_has_row s \<Longrightarrow>
   fst (purchaseMovements s n xs) \<noteq> Inl IntegerOutOfRange \<Longrightarrow>
   projection_consistent (snd (purchaseMovements s n xs)) \<and>
   every_item_has_row (snd (purchaseMovements s n xs))"
proof (induction xs arbitrary: s)
  case Nil
  then show ?case by simp
next
  case (Cons x xs)
  let ?m = "\<lparr>ism_itemId = ipi_itemId x, ism_type = ''purchase'', ism_quantity = ipi_quantity x,
             ism_reason = Some (''Purchase - '' @ n)\<rparr>"
  obtain r s1 where c: "createStockMovement s ?m = (r, s1)"
    by (cases "createStockMovement s ?m")
  show ?case
  proof (cases r)
    case (Inl e)
    then have run: "purchaseMovements s n (x # xs) = (Inl e, s1)" using c by simp
    then have "e \<noteq> IntegerOutOfRange" using Cons.prems(2) by simp
    then have "fst (createStockMovement s ?m) \<noteq> Inl IntegerOutOfRange" using c Inl by simp
    from createStockMovement_invariant [OF Cons.prems(1) this] show ?thesis
      using run c by simp
  next
    case (Inr mv)
    then have run: "purchaseMovements s n (x # xs) = purchaseMovements s1 n xs" using c by simp
    have "fst (createStockMovement s ?m) \<noteq> Inl IntegerOutOfRange" using c Inr by simp
    from createStockMovement_invariant [OF Cons.prems(1) this]
    have inv1: "projection_consistent s1 \<and> every_item_has_row s1" using c by simp
    have "fst (purchaseMovements s1 n xs) \<noteq> Inl IntegerOutOfRange"
      using Cons.prems(2) run by simp
    from Cons.IH [OF inv1 this] show ?thesis using run by simp
  qed
qed

lemma insertBill_frame:
  "insertBill s b = Inr (h, s1) \<Longrightarrow>
   inventory s1 = inventory s \<and> stockMovements s1 = stockMovements s \<and>
   billItems s1 = billItems s \<and> items s1 = items s \<and> bills s1 = bills s @ [h] \<and>
   billNumber h = ib_billNumber b \<and> bill_id h = nextId s \<and>
   ib_billNumber b \<notin> set (map billNumber (bills s))"
  by (auto simp: insertBill_def Let_def split: if_splits)

lemma insertBillItems_frame:
  "insertBillItems s vs = Inr s2 \<Longrightarrow>
   inventory s2 = inventory s \<and> stockMovements s2 = stockMovements s \<and>
   bills s2 = bills s \<and> items s2 = items s"
  by (auto simp: insertBillItems_def split: if_splits)

lemma insertPurchase_frame:
  "insertPurchase s p = Inr (h, s1) \<Longrightarrow>
   inventory s1 = inventory s \<and> stockMovements s1 = stockMovements s \<and>
   purchaseItems s1 = purchaseItems s \<and> items s1 = items s \<and>
   purchases s1 = purchases s @ [h] \<and>
   purchaseNumber h = ip_purchaseNumber p \<and> pur_id h = nextId s \<and>
   ip_purchaseNumber p \<notin> set (map purchaseNumber (purchases s))"
  by (auto simp: insertPurchase_def Let_def split: if_splits)

lemma insertPurchaseItems_frame:
  "insertPurchaseItems s vs = Inr s2 \<Longrightarrow>
   inventory s2 = inventory s \<and> stockMovements s2 = stockMovements s \<and>
   purchases s2 = purchases s \<and> items s2 = items s"
  by (auto simp: insertPurchaseItems_def split: if_splits)

lemma invariant_cong:
  assumes "projection_consistent s \<and> every_item_has_row s"
      and "inventory s' = inventory s \<and> stockMovements s' = stockMovements s \<and> items s' = items s"
  shows "projection_consistent s' \<and> every_item_has_row s'"
  using assms projection_consistent_cong [of s' s] every_item_has_row_cong [of s' s] by simp

lemma createBill_invariant:
  assumes "projection_consistent s \<and> every_item_has_row s"
      and "fst (createBill s b xs) \<noteq> Inl IntegerOutOfRange"
  shows "projection_consistent (snd (createBill s b xs)) \<and>
         every_item_has_row (snd (createBill s b xs))"
proof (cases "insertBill s b")
  case (Inl e)
  then show ?thesis using assms(1) by (simp add: createBill_def)
next
  case (Inr p)
  obtain h s1 where p: "p = (h, s1)" by (cases p)
  have c1: "projection_consistent s1 \<and> every_item_has_row s1"
    using insertBill_frame [OF Inr [unfolded p]] by (intro invariant_cong [OF assms(1)]) simp
  show ?thesis
  proof (cases "insertBillItems s1 (map (\<lambda>i. (bill_id h, i)) xs)")
    case (Inl e)
    then show ?thesis using Inr p c1 by (simp add: createBill_def)
  next
    case Inr2: (Inr s2)
    have c2: "projection_consistent s2 \<and> every_item_has_row s2"
      using insertBillItems_frame [OF Inr2] by (intro invariant_cong [OF c1]) simp
    obtain r s3 where run: "saleMovements s2 (billNumber h) xs = (r, s3)"
      by (cases "saleMovements s2 (billNumber h) xs")
    have res: "fst (createBill s b xs) = (case r of Inl e \<Rightarrow> Inl e | Inr u \<Rightarrow> Inr (getBill s3 (bill_id h)))"
      and st: "snd (createBill s b xs) = s3"
      using Inr p Inr2 run by (auto simp: createBill_def split: sum.splits)
    have "r \<noteq> Inl IntegerOutOfRange" using assms(2) res by auto
    then have "fst (saleMovements s2 (billNumber h) xs) \<noteq> Inl IntegerOutOfRange"
      using run by simp
    from saleMovements_invariant [OF c2 this] show ?thesis using run st by simp
  qed
qed

lemma createPurchase_invariant:
  assumes "projection_consistent s \<and> every_item_has_row s"
      and "fst (createPurchase s b xs) \<noteq> Inl IntegerOutOfRange"
  shows "projection_consistent (snd (createPurchase s b xs)) \<and>
         every_item_has_row (snd (createPurchase s b xs))"
proof (cases "insertPurchase s b")
  case (Inl e)
  then show ?thesis using assms(1) by (simp add: createPurchase_def)
next
  case (Inr p)
  obtain h s1 where p: "p = (h, s1)" by (cases p)
  have c1: "projection_consistent s1 \<and> every_item_has_row s1"
    using insertPurchase_frame [OF Inr [unfolded p]] by (intro invariant_cong [OF assms(1)]) simp
  show ?thesis
  proof (cases "insertPurchaseItems s1 (map (\<lambda>i. (pur_id h, i)) xs)")
    case (Inl e)
    then show ?thesis using Inr p c1 by (simp add: createPurchase_def)
  next
    case Inr2: (Inr s2)
    have c2: "projection_consistent s2 \<and> every_item_has_row s2"
      using insertPurchaseItems_frame [OF Inr2] by (intro invariant_cong [OF c1]) simp
    obtain r s3 where run: "purchaseMovements s2 (purchaseNumber h) xs = (r, s3)"
      by (cases "purchaseMovements s2 (purchaseNumber h) xs")
    have res: "fst (createPurchase s b xs)
        = (case r of Inl e \<Rightarrow> Inl e | Inr u \<Rightarrow> Inr (getPurchase s3 (pur_id h)))"
      and st: "snd (createPurchase s b xs) = s3"
      using Inr p Inr2 run by (auto simp: createPurchase_def split: sum.splits)
    have "r \<noteq> Inl IntegerOutOfRange" using assms(2) res by auto
    then have "fst (purchaseMovements s2 (purchaseNumber h) xs) \<noteq> Inl IntegerOutOfRange"
      using run by simp
    from purchaseMovements_invariant [OF c2 this] show ?thesis using run st by simp
  qed
qed

lemma movement_fields_new:
  "movement_fields (new_movement s m) = (ism_itemId m, ism_type m, ism_quantity m, ism_reason m)"
  by (simp add: movement_fields_def new_movement_def)

text \<open>
  The loop over the lines, when every line names an existing item: it ends normally with
  one movement per line, or it is ended by an update that the inventory rejects, with the
  movements of the lines up to and including the rejected one.
\<close>

lemma saleMovements_outcomes:
  assumes "\<forall>x\<in>set xs. ibi_itemId x \<in> set (items s)"
  shows "\<exists>mvs. stockMovements (snd (saleMovements s n xs)) = stockMovements s @ mvs \<and>
           items (snd (saleMovements s n xs)) = items s \<and>
           bills (snd (saleMovements s n xs)) = bills s \<and>
           billItems (snd (saleMovements s n xs)) = billItems s \<and>
           ((fst (saleMovements s n xs) = Inr () \<and>
             map movement_fields mvs =
               map (\<lambda>x. (ibi_itemId x, ''sale'', ibi_quantity x, Some (''Sale - Bill '' @ n))) xs) \<or>
            (fst (saleMovements s n xs) = Inl IntegerOutOfRange \<and>
             mvs \<noteq> [] \<and> length mvs \<le> length xs \<and>
             map movement_fields mvs =
               map (\<lambda>x. (ibi_itemId x, ''sale'', ibi_quantity x, Some (''Sale - Bill '' @ n)))
                   (take (length mvs) xs)))"
  using assms
proof (induction xs arbitrary: s)
  case Nil
  then show ?case by simp
next
  case (Cons x xs)
  let ?m = "\<lparr>ism_itemId = ibi_itemId x, ism_type = ''sale'', ism_quantity = ibi_quantity x,
             ism_reason = Some (''Sale - Bill '' @ n)\<rparr>"
  let ?f = "\<lambda>x. (ibi_itemId x, ''sale'', ibi_quantity x, Some (''Sale - Bill '' @ n))"
  obtain r s1 where c: "createStockMovement s ?m = (r, s1)"
    by (cases "createStockMovement s ?m")
  have x: "ism_itemId ?m \<in> set (items s)" using Cons.prems by simp
  note rec = createStockMovement_recorded [OF x, unfolded c fst_conv snd_conv]
  have nm: "movement_fields (new_movement s ?m) = ?f x" by (simp add: movement_fields_new)
  show ?case
  proof (cases r)
    case (Inl e)
    then have e: "e = IntegerOutOfRange" using rec by simp
    have run: "saleMovements s n (x # xs) = (Inl IntegerOutOfRange, s1)"
      using c Inl e by simp
    show ?thesis
      using run rec nm by (intro exI [of _ "[new_movement s ?m]"]) simp
  next
    case (Inr mv)
    have run: "saleMovements s n (x # xs) = saleMovements s1 n xs"
      using c Inr by simp
    have "\<forall>y\<in>set xs. ibi_itemId y \<in> set (items s1)" using Cons.prems rec by simp
    from Cons.IH [OF this] obtain mvs where
      ih: "stockMovements (snd (saleMovements s1 n xs)) = stockMovements s1 @ mvs"
          "items (snd (saleMovements s1 n xs)) = items s1"
          "bills (snd (saleMovements s1 n xs)) = bills s1"
          "billItems (snd (saleMovements s1 n xs)) = billItems s1"
          "(fst (saleMovements s1 n xs) = Inr () \<and> map movement_fields mvs = map ?f xs) \<or>
           (fst (saleMovements s1 n xs) = Inl IntegerOutOfRange \<and>
            mvs \<noteq> [] \<and> length mvs \<le> length xs \<and>
            map movement_fields mvs = map ?f (take (length mvs) xs))"
      by blast
    show ?thesis
      using run rec nm ih by (intro exI [of _ "new_movement s ?m # mvs"]) auto
  qed
qed

lemma purchaseMovements_outcomes:
  assumes "\<forall>x\<in>set xs. ipi_itemId x \<in> set (items s)"
  shows "\<exists>mvs. stockMovements (snd (purchaseMovements s n xs)) = stockMovements s @ mvs \<and>
           items (snd (purchaseMovements s n xs)) = items s \<and>
           purchases (snd (purchaseMovements s n xs)) = purchases s \<and>
           purchaseItems (snd (purchaseMovements s n xs)) = purchaseItems s \<and>
           ((fst (purchaseMovements s n xs) = Inr () \<and>
             map movement_fields mvs =
               map (\<lambda>x. (ipi_itemId x, ''purchase'', ipi_quantity x, Some (''Purchase - '' @ n))) xs) \<or>
            (fst (purchaseMovements s n xs) = Inl IntegerOutOfRange \<and>
             mvs \<noteq> [] \<and> length mvs \<le> length xs \<and>
             map movement_fields mvs =
               map (\<lambda>x. (ipi_itemId x, ''purchase'', ipi_quantity x, Some (''Purchase - '' @ n)))
                   (take (length mvs) xs)))"
  using assms
proof (induction xs arbitrary: s)
  case Nil
  then show ?case by simp
next
  case (Cons x xs)
  let ?m = "\<lparr>ism_itemId = ipi_itemId x, ism_type = ''purchase'', ism_quantity = ipi_quantity x,
             ism_reason = Some (''Purchase - '' @ n)\<rparr>"
  let ?f = "\<lambda>x. (ipi_itemId x, ''purchase'', ipi_quantity x, Some (''Purchase - '' @ n))"
  obtain r s1 where c: "createStockMovement s ?m = (r, s1)"
    by (cases "createStockMovement s ?m")
  have x: "ism_itemId ?m \<in> set (items s)" using Cons.prems by simp
  note rec = createStockMovement_recorded [OF x, unfolded c fst_conv snd_conv]
  have nm: "movement_fields (new_movement s ?m) = ?f x" by (simp add: movement_fields_new)
  show ?case
  proof (cases r)
    case (Inl e)
    then have e: "e = IntegerOutOfRange" using rec by simp
    have run: "purchaseMovements s n (x # xs) = (Inl IntegerOutOfRange, s1)"
      using c Inl e by simp
    show ?thesis
      using run rec nm by (intro exI [of _ "[new_movement s ?m]"]) simp
  next
    case (Inr mv)
    have run: "purchaseMovements s n (x # xs) = purchaseMovements s1 n xs"
      using c Inr by simp
    have "\<forall>y\<in>set xs. ipi_itemId y \<in> set (items s1)" using Cons.prems rec by simp
    from Cons.IH [OF this] obtain mvs where
      ih: "stockMovements (snd (purchaseMovements s1 n xs)) = stockMovements s1 @ mvs"
          "items (snd (purchaseMovements s1 n xs)) = items s1"
          "purchases (snd (purchaseMovements s1 n xs)) = purchases s1"
          "purchaseItems (snd (purchaseMovements s1 n xs)) = purchaseItems s1"
          "(fst (purchaseMovements s1 n xs) = Inr () \<and> map movement_fields mvs = map ?f xs) \<or>
           (fst (purchaseMovements s1 n xs) = Inl IntegerOutOfRange \<and>
            mvs \<noteq> [] \<and> length mvs \<le> length xs \<and>
            map movement_fields mvs = map ?f (take (length mvs) xs))"
      by blast
    show ?thesis
      using run rec nm ih by (intro exI [of _ "new_movement s ?m # mvs"]) auto
  qed
qed

lemma map_zip_tagged:
  "length ks = length xs \<Longrightarrow>
   map (\<lambda>(k, (b, i)). g b i) (zip ks (map (\<lambda>i. (h, i)) xs)) = map (g h) xs"
proof (induction xs arbitrary: ks)
  case Nil
  then show ?case by simp
next
  case (Cons x xs)
  then show ?case by (cases ks) simp_all
qed

lemma insertBillItems_ok:
  assumes "insertBillItems s1 (map (\<lambda>i. (h, i)) xs) = Inr s2"
  shows "\<exists>lines. billItems s2 = billItems s1 @ lines \<and>
           map bill_item_fields lines =
             map (\<lambda>x. (h, ibi_itemId x, ibi_quantity x, decimal_10_2 (ibi_rate x),
                        decimal_10_2 (ibi_amount x))) xs"
    and "\<forall>x\<in>set xs. ibi_itemId x \<in> set (items s1)"
    and "xs \<noteq> []"
proof -
  let ?vs = "map (\<lambda>i. (h, i)) xs"
  let ?new = "map (\<lambda>(k, (billId, i)).
                    \<lparr>bi_id = k, bi_billId = billId, bi_itemId = ibi_itemId i,
                     bi_quantity = ibi_quantity i, bi_rate = decimal_10_2 (ibi_rate i),
                     bi_amount = decimal_10_2 (ibi_amount i)\<rparr>)
                  (zip [nextId s1 ..< nextId s1 + length ?vs] ?vs)"
  have ne: "?vs \<noteq> []" and fk: "list_all (\<lambda>(billId, i). billId \<in> set (map bill_id (bills s1))
                                      \<and> ibi_itemId i \<in> set (items s1)) ?vs"
    and s2: "s2 = s1\<lparr>billItems := billItems s1 @ ?new, nextId := nextId s1 + length ?vs\<rparr>"
    using assms by (auto simp: insertBillItems_def split: if_splits)
  show "xs \<noteq> []" using ne by simp
  show "\<forall>x\<in>set xs. ibi_itemId x \<in> set (items s1)"
    using fk by (auto simp: list_all_iff)
  have "map bill_item_fields ?new =
          map (\<lambda>(k, (b, i)). (b, ibi_itemId i, ibi_quantity i, decimal_10_2 (ibi_rate i),
                               decimal_10_2 (ibi_amount i)))
              (zip [nextId s1 ..< nextId s1 + length ?vs] ?vs)"
    by (simp add: bill_item_fields_def case_prod_unfold)
  also have "\<dots> = map (\<lambda>x. (h, ibi_itemId x, ibi_quantity x, decimal_10_2 (ibi_rate x),
                             decimal_10_2 (ibi_amount x))) xs"
    by (rule map_zip_tagged) simp
  finally show "\<exists>lines. billItems s2 = billItems s1 @ lines \<and>
           map bill_item_fields lines =
             map (\<lambda>x. (h, ibi_itemId x, ibi_quantity x, decimal_10_2 (ibi_rate x),
                        decimal_10_2 (ibi_amount x))) xs"
    using s2 by (intro exI [of _ ?new]) simp
qed

lemma insertPurchaseItems_ok:
  assumes "insertPurchaseItems s1 (map (\<lambda>i. (h, i)) xs) = Inr s2"
  shows "\<exists>lines. purchaseItems s2 = purchaseItems s1 @ lines \<and>
           map purchase_item_fields lines =
             map (\<lambda>x. (h, ipi_itemId x, ipi_quantity x, decimal_10_2 (ipi_rate x),
                        decimal_10_2 (ipi_amount x))) xs"
    and "\<forall>x\<in>set xs. ipi_itemId x \<in> set (items s1)"
    and "xs \<noteq> []"
proof -
  let ?vs = "map (\<lambda>i. (h, i)) xs"
  let ?new = "map (\<lambda>(k, (purchaseId, i)).
                    \<lparr>pi_id = k, pi_purchaseId = purchaseId, pi_itemId = ipi_itemId i,
                     pi_quantity = ipi_quantity i, pi_rate = decimal_10_2 (ipi_rate i),
                     pi_amount = decimal_10_2 (ipi_amount i)\<rparr>)
                  (zip [nextId s1 ..< nextId s1 + length ?vs] ?vs)"
  have ne: "?vs \<noteq> []"
    and fk: "list_all (\<lambda>(purchaseId, i). purchaseId \<in> set (map pur_id (purchases s1))
                                      \<and> ipi_itemId i \<in> set (items s1)) ?vs"
    and s2: "s2 = s1\<lparr>purchaseItems := purchaseItems s1 @ ?new,
                      nextId := nextId s1 + length ?vs\<rparr>"
    using assms by (auto simp: insertPurchaseItems_def split: if_splits)
  show "xs \<noteq> []" using ne by simp
  show "\<forall>x\<in>set xs. ipi_itemId x \<in> set (items s1)"
    using fk by (auto simp: list_all_iff)
  have "map purchase_item_fields ?new =
          map (\<lambda>(k, (b, i)). (b, ipi_itemId i, ipi_quantity i, decimal_10_2 (ipi_rate i),
                               decimal_10_2 (ipi_amount i)))
              (zip [nextId s1 ..< nextId s1 + length ?vs] ?vs)"
    by (simp add: purchase_item_fields_def case_prod_unfold)
  also have "\<dots> = map (\<lambda>x. (h, ipi_itemId x, ipi_quantity x, decimal_10_2 (ipi_rate x),
                             decimal_10_2 (ipi_amount x))) xs"
    by (rule map_zip_tagged) simp
  finally show "\<exists>lines. purchaseItems s2 = purchaseItems s1 @ lines \<and>
           map purchase_item_fields lines =
             map (\<lambda>x. (h, ipi_itemId x, ipi_quantity x, decimal_10_2 (ipi_rate x),
                        decimal_10_2 (ipi_amount x))) xs"
    using s2 by (intro exI [of _ ?new]) simp
qed

lemma createBill_outcomes:
  "(\<exists>e. createBill s b xs = (Inl e, s)) \<or>
   (\<exists>e s' h. createBill s b xs = (Inl e, s') \<and> bills s' = bills s @ [h] \<and>
        billNumber h = ib_billNumber b \<and>
        ib_billNumber b \<notin> set (map billNumber (bills s)) \<and> billItems s' = billItems s \<and>
        stockMovements s' = stockMovements s \<and> inventory s' = inventory s) \<or>
   (\<exists>s' h lines mvs. createBill s b xs = (Inl IntegerOutOfRange, s') \<and>
        bills s' = bills s @ [h] \<and> billNumber h = ib_billNumber b \<and>
        ib_billNumber b \<notin> set (map billNumber (bills s)) \<and>
        billItems s' = billItems s @ lines \<and>
        map bill_item_fields lines =
          map (\<lambda>x. (bill_id h, ibi_itemId x, ibi_quantity x, decimal_10_2 (ibi_rate x),
                     decimal_10_2 (ibi_amount x))) xs \<and>
        stockMovements s' = stockMovements s @ mvs \<and>
        mvs \<noteq> [] \<and> length mvs \<le> length xs \<and>
        map movement_fields mvs =
          map (\<lambda>x. (ibi_itemId x, ''sale'', ibi_quantity x,
                     Some (''Sale - Bill '' @ ib_billNumber b))) (take (length mvs) xs)) \<or>
   (\<exists>r s' h lines mvs. createBill s b xs = (Inr r, s') \<and> bills s' = bills s @ [h] \<and>
        billNumber h = ib_billNumber b \<and>
        ib_billNumber b \<notin> set (map billNumber (bills s)) \<and>
        billItems s' = billItems s @ lines \<and>
        map bill_item_fields lines =
          map (\<lambda>x. (bill_id h, ibi_itemId x, ibi_quantity x, decimal_10_2 (ibi_rate x),
                     decimal_10_2 (ibi_amount x))) xs \<and>
        stockMovements s' = stockMovements s @ mvs \<and>
        map movement_fields mvs =
          map (\<lambda>x. (ibi_itemId x, ''sale'', ibi_quantity x,
                     Some (''Sale - Bill '' @ ib_billNumber b))) xs)"
proof (cases "insertBill s b")
  case (Inl e)
  then show ?thesis by (simp add: createBill_def)
next
  case (Inr p)
  obtain h s1 where p: "p = (h, s1)" by (cases p)
  note f1 = insertBill_frame [OF Inr [unfolded p]]
  show ?thesis
  proof (cases "insertBillItems s1 (map (\<lambda>i. (bill_id h, i)) xs)")
    case (Inl e)
    then have "createBill s b xs = (Inl e, s1)" using Inr p by (simp add: createBill_def)
    then show ?thesis using f1 by auto
  next
    case Inr2: (Inr s2)
    note f2 = insertBillItems_frame [OF Inr2]
    from insertBillItems_ok [OF Inr2] obtain lines where
      lines: "billItems s2 = billItems s1 @ lines"
        "map bill_item_fields lines =
           map (\<lambda>x. (bill_id h, ibi_itemId x, ibi_quantity x, decimal_10_2 (ibi_rate x),
                      decimal_10_2 (ibi_amount x))) xs"
      and known: "\<forall>x\<in>set xs. ibi_itemId x \<in> set (items s1)"
      by blast
    obtain r s3 where run: "saleMovements s2 (billNumber h) xs = (r, s3)"
      by (cases "saleMovements s2 (billNumber h) xs")
    have "\<forall>x\<in>set xs. ibi_itemId x \<in> set (items s2)" using known f2 by simp
    from saleMovements_outcomes [OF this, of "billNumber h", unfolded run fst_conv snd_conv]
    obtain mvs where
      out: "stockMovements s3 = stockMovements s2 @ mvs"
        "bills s3 = bills s2" "billItems s3 = billItems s2"
        "(r = Inr () \<and> map movement_fields mvs =
            map (\<lambda>x. (ibi_itemId x, ''sale'', ibi_quantity x,
                       Some (''Sale - Bill '' @ billNumber h))) xs) \<or>
         (r = Inl IntegerOutOfRange \<and> mvs \<noteq> [] \<and> length mvs \<le> length xs \<and>
          map movement_fields mvs =
            map (\<lambda>x. (ibi_itemId x, ''sale'', ibi_quantity x,
                       Some (''Sale - Bill '' @ billNumber h))) (take (length mvs) xs))"
      by blast
    from out(4) show ?thesis
    proof
      assume ok: "r = Inr () \<and> map movement_fields mvs =
            map (\<lambda>x. (ibi_itemId x, ''sale'', ibi_quantity x,
                       Some (''Sale - Bill '' @ billNumber h))) xs"
      have res: "createBill s b xs = (Inr (getBill s3 (bill_id h)), s3)"
        using Inr p Inr2 run ok by (simp add: createBill_def)
      have "\<exists>r s' h lines mvs. createBill s b xs = (Inr r, s') \<and> bills s' = bills s @ [h] \<and>
        billNumber h = ib_billNumber b \<and>
        ib_billNumber b \<notin> set (map billNumber (bills s)) \<and>
        billItems s' = billItems s @ lines \<and>
        map bill_item_fields lines =
          map (\<lambda>x. (bill_id h, ibi_itemId x, ibi_quantity x, decimal_10_2 (ibi_rate x),
                     decimal_10_2 (ibi_amount x))) xs \<and>
        stockMovements s' = stockMovements s @ mvs \<and>
        map movement_fields mvs =
          map (\<lambda>x. (ibi_itemId x, ''sale'', ibi_quantity x,
                     Some (''Sale - Bill '' @ ib_billNumber b))) xs"
        apply (rule exI [of _ "getBill s3 (bill_id h)"], rule exI [of _ s3], rule exI [of _ h],
               rule exI [of _ lines], rule exI [of _ mvs])
        using res ok out(1-3) lines f1 f2 by simp
      then show ?thesis by blast
    next
      assume bad: "r = Inl IntegerOutOfRange \<and> mvs \<noteq> [] \<and> length mvs \<le> length xs \<and>
          map movement_fields mvs =
            map (\<lambda>x. (ibi_itemId x, ''sale'', ibi_quantity x,
                       Some (''Sale - Bill '' @ billNumber h))) (take (length mvs) xs)"
      have res: "createBill s b xs = (Inl IntegerOutOfRange, s3)"
        using Inr p Inr2 run bad by (simp add: createBill_def)
      have "\<exists>s' h lines mvs. createBill s b xs = (Inl IntegerOutOfRange, s') \<and>
        bills s' = bills s @ [h] \<and> billNumber h = ib_billNumber b \<and>
        ib_billNumber b \<notin> set (map billNumber (bills s)) \<and>
        billItems s' = billItems s @ lines \<and>
        map bill_item_fields lines =
          map (\<lambda>x. (bill_id h, ibi_itemId x, ibi_quantity x, decimal_10_2 (ibi_rate x),
                     decimal_10_2 (ibi_amount x))) xs \<and>
        stockMovements s' = stockMovements s @ mvs \<and>
        mvs \<noteq> [] \<and> length mvs \<le> length xs \<and>
        map movement_fields mvs =
          map (\<lambda>x. (ibi_itemId x, ''sale'', ibi_quantity x,
                     Some (''Sale - Bill '' @ ib_billNumber b))) (take (length mvs) xs)"
        apply (rule exI [of _ s3], rule exI [of _ h], rule exI [of _ lines],
               rule exI [of _ mvs])
        using res bad out(1-3) lines f1 f2 by simp
      then show ?thesis by blast
    qed
  qed
qed

lemma createPurchase_outcomes:
  "(\<exists>e. createPurchase s b xs = (Inl e, s)) \<or>
   (\<exists>e s' h. createPurchase s b xs = (Inl e, s') \<and> purchases s' = purchases s @ [h] \<and>
        purchaseNumber h = ip_purchaseNumber b \<and>
        ip_purchaseNumber b \<notin> set (map purchaseNumber (purchases s)) \<and> purchaseItems s' = purchaseItems s \<and>
        stockMovements s' = stockMovements s \<and> inventory s' = inventory s) \<or>
   (\<exists>s' h lines mvs. createPurchase s b xs = (Inl IntegerOutOfRange, s') \<and>
        purchases s' = purchases s @ [h] \<and> purchaseNumber h = ip_purchaseNumber b \<and>
        ip_purchaseNumber b \<notin> set (map purchaseNumber (purchases s)) \<and>
        purchaseItems s' = purchaseItems s @ lines \<and>
        map purchase_item_fields lines =
          map (\<lambda>x. (pur_id h, ipi_itemId x, ipi_quantity x, decimal_10_2 (ipi_rate x),
                     decimal_10_2 (ipi_amount x))) xs \<and>
        stockMovements s' = stockMovements s @ mvs \<and>
        mvs \<noteq> [] \<and> length mvs \<le> length xs \<and>
        map movement_fields mvs =
          map (\<lambda>x. (ipi_itemId x, ''purchase'', ipi_quantity x,
                     Some (''Purchase - '' @ ip_purchaseNumber b))) (take (length mvs) xs)) \<or>
   (\<exists>r s' h lines mvs. createPurchase s b xs = (Inr r, s') \<and> purchases s' = purchases s @ [h] \<and>
        purchaseNumber h = ip_purchaseNumber b \<and>
        ip_purchaseNumber b \<notin> set (map purchaseNumber (purchases s)) \<and>
        purchaseItems s' = purchaseItems s @ lines \<and>
        map purchase_item_fields lines =
          map (\<lambda>x. (pur_id h, ipi_itemId x, ipi_quantity x, decimal_10_2 (ipi_rate x),
                     decimal_10_2 (ipi_amount x))) xs \<and>
        stockMovements s' = stockMovements s @ mvs \<and>
        map movement_fields mvs =
          map (\<lambda>x. (ipi_itemId x, ''purchase'', ipi_quantity x,
                     Some (''Purchase - '' @ ip_purchaseNumber b))) xs)"
proof (cases "insertPurchase s b")
  case (Inl e)
  then show ?thesis by (simp add: createPurchase_def)
next
  case (Inr p)
  obtain h s1 where p: "p = (h, s1)" by (cases p)
  note f1 = insertPurchase_frame [OF Inr [unfolded p]]
  show ?thesis
  proof (cases "insertPurchaseItems s1 (map (\<lambda>i. (pur_id h, i)) xs)")
    case (Inl e)
    then have "createPurchase s b xs = (Inl e, s1)" using Inr p by (simp add: createPurchase_def)
    then show ?thesis using f1 by auto
  next
    case Inr2: (Inr s2)
    note f2 = insertPurchaseItems_frame [OF Inr2]
    from insertPurchaseItems_ok [OF Inr2] obtain lines where
      lines: "purchaseItems s2 = purchaseItems s1 @ lines"
        "map purchase_item_fields lines =
           map (\<lambda>x. (pur_id h, ipi_itemId x, ipi_quantity x, decimal_10_2 (ipi_rate x),
                      decimal_10_2 (ipi_amount x))) xs"
      and known: "\<forall>x\<in>set xs. ipi_itemId x \<in> set (items s1)"
      by blast
    obtain r s3 where run: "purchaseMovements s2 (purchaseNumber h) xs = (r, s3)"
      by (cases "purchaseMovements s2 (purchaseNumber h) xs")
    have "\<forall>x\<in>set xs. ipi_itemId x \<in> set (items s2)" using known f2 by simp
    from purchaseMovements_outcomes [OF this, of "purchaseNumber h", unfolded run fst_conv snd_conv]
    obtain mvs where
      out: "stockMovements s3 = stockMovements s2 @ mvs"
        "purchases s3 = purchases s2" "purchaseItems s3 = purchaseItems s2"
        "(r = Inr () \<and> map movement_fields mvs =
            map (\<lambda>x. (ipi_itemId x, ''purchase'', ipi_quantity x,
                       Some (''Purchase - '' @ purchaseNumber h))) xs) \<or>
         (r = Inl IntegerOutOfRange \<and> mvs \<noteq> [] \<and> length mvs \<le> length xs \<and>
          map movement_fields mvs =
            map (\<lambda>x. (ipi_itemId x, ''purchase'', ipi_quantity x,
                       Some (''Purchase - '' @ purchaseNumber h))) (take (length mvs) xs))"
      by blast
    from out(4) show ?thesis
    proof
      assume ok: "r = Inr () \<and> map movement_fields mvs =
            map (\<lambda>x. (ipi_itemId x, ''purchase'', ipi_quantity x,
                       Some (''Purchase - '' @ purchaseNumber h))) xs"
      have res: "createPurchase s b xs = (Inr (getPurchase s3 (pur_id h)), s3)"
        using Inr p Inr2 run ok by (simp add: createPurchase_def)
      have "\<exists>r s' h lines mvs. createPurchase s b xs = (Inr r, s') \<and> purchases s' = purchases s @ [h] \<and>
        purchaseNumber h = ip_purchaseNumber b \<and>
        ip_purchaseNumber b \<notin> set (map purchaseNumber (purchases s)) \<and>
        purchaseItems s' = purchaseItems s @ lines \<and>
        map purchase_item_fields lines =
          map (\<lambda>x. (pur_id h, ipi_itemId x, ipi_quantity x, decimal_10_2 (ipi_rate x),
                     decimal_10_2 (ipi_amount x))) xs \<and>
        stockMovements s' = stockMovements s @ mvs \<and>
        map movement_fields mvs =
          map (\<lambda>x. (ipi_itemId x, ''purchase'', ipi_quantity x,
                     Some (''Purchase - '' @ ip_purchaseNumber b))) xs"
        apply (rule exI [of _ "getPurchase s3 (pur_id h)"], rule exI [of _ s3], rule exI [of _ h],
               rule exI [of _ lines], rule exI [of _ mvs])
        using res ok out(1-3) lines f1 f2 by simp
      then show ?thesis by blast
    next
      assume bad: "r = Inl IntegerOutOfRange \<and> mvs \<noteq> [] \<and> length mvs \<le> length xs \<and>
          map movement_fields mvs =
            map (\<lambda>x. (ipi_itemId x, ''purchase'', ipi_quantity x,
                       Some (''Purchase - '' @ purchaseNumber h))) (take (length mvs) xs)"
      have res: "createPurchase s b xs = (Inl IntegerOutOfRange, s3)"
        using Inr p Inr2 run bad by (simp add: createPurchase_def)
      have "\<exists>s' h lines mvs. createPurchase s b xs = (Inl IntegerOutOfRange, s') \<and>
        purchases s' = purchases s @ [h] \<and> purchaseNumber h = ip_purchaseNumber b \<and>
        ip_purchaseNumber b \<notin> set (map purchaseNumber (purchases s)) \<and>
        purchaseItems s' = purchaseItems s @ lines \<and>
        map purchase_item_fields lines =
          map (\<lambda>x. (pur_id h, ipi_itemId x, ipi_quantity x, decimal_10_2 (ipi_rate x),
                     decimal_10_2 (ipi_amount x))) xs \<and>
        stockMovements s' = stockMovements s @ mvs \<and>
        mvs \<noteq> [] \<and> length mvs \<le> length xs \<and>
        map movement_fields mvs =
          map (\<lambda>x. (ipi_itemId x, ''purchase'', ipi_quantity x,
                     Some (''Purchase - '' @ ip_purchaseNumber b))) (take (length mvs) xs)"
        apply (rule exI [of _ s3], rule exI [of _ h], rule exI [of _ lines],
               rule exI [of _ mvs])
        using res bad out(1-3) lines f1 f2 by simp
      then show ?thesis by blast
    qed
  qed
qed

lemma createBill_distinct:
  assumes "distinct (map billNumber (bills s))"
  shows "distinct (map billNumber (bills (snd (createBill s b xs))))"
  using createBill_outcomes [of s b xs] assms by (elim disjE exE conjE) simp_all

lemma createPurchase_distinct:
  assumes "distinct (map purchaseNumber (purchases s))"
  shows "distinct (map purchaseNumber (purchases (snd (createPurchase s p ys))))"
  using createPurchase_outcomes [of s p ys] assms by (elim disjE exE conjE) simp_all

lemma getNextBillNumber_state: "snd (getNextBillNumber s) = s"
  by (simp add: getNextBillNumber_def Let_def split: list.splits)

lemma getNextPurchaseNumber_state: "snd (getNextPurchaseNumber s) = s"
  by (simp add: getNextPurchaseNumber_def Let_def split: list.splits)

lemma postBills_rest_distinct:
  assumes "distinct (map billNumber (bills s))"
  shows "distinct (map billNumber (bills (snd (postBills_rest s u n d xs))))"
proof -
  let ?b = "\<lparr>ib_billNumber = n, ib_customerId = bd_customerId d,
             ib_subtotal = bd_subtotal d, ib_gstAmount = bd_gstAmount d,
             ib_total = bd_total d, ib_status = bd_status d, ib_createdBy = u\<rparr>"
  have "snd (postBills_rest s u n d xs) = s \<or>
        snd (postBills_rest s u n d xs) = snd (createBill s ?b xs)"
    by (auto simp: postBills_rest_def Let_def split: prod.splits sum.splits)
  then show ?thesis using assms createBill_distinct [OF assms, of ?b xs] by auto
qed

section \<open>Sequence allocator\<close>

text \<open>
  Claim C1: for every pair of concurrent calls that allocate a document number in the
  same series, the two allocations never yield the same number; issuing N concurrent
  bills yields N distinct bill numbers.

  The allocator only reads the last document. In the schedule of
  \<open>postBills_interleaved\<close> both requests read before either writes, and both are
  handed \<^verbatim>\<open>INV-2024-001\<close>: the first bill is created, the second is refused by the
  unique constraint on the number.
\<close>

theorem concurrent_allocations_collide:
  "fst (postBills_interleaved shop 4 header [line 1 2] 4 header [line 1 3])
     = (''INV-2024-001'', 201) \<and>
   fst (snd (postBills_interleaved shop 4 header [line 1 2] 4 header [line 1 3]))
     = (''INV-2024-001'', 400)"
  by code_simp

text \<open>
  Claim C1, as the code has it: stored documents never share a number. A header whose
  number is already stored is refused, so \<open>createBill\<close> and \<open>createPurchase\<close> keep
  the stored numbers of their series pairwise distinct, whatever number they are given,
  and so do two interleaved requests.
\<close>

theorem stored_numbers_stay_distinct:
  assumes "distinct (map billNumber (bills s))"
      and "distinct (map purchaseNumber (purchases s))"
  shows "distinct (map billNumber (bills (snd (createBill s b xs)))) \<and>
         distinct (map purchaseNumber (purchases (snd (createPurchase s p ys)))) \<and>
         distinct (map billNumber
           (bills (snd (snd (postBills_interleaved s uA dA xsA uB dB xsB)))))"
proof -
  obtain n where gn: "getNextBillNumber s = (n, s)"
    using getNextBillNumber_state [of s] by (cases "getNextBillNumber s") simp
  let ?s3 = "snd (postBills_rest s uA n dA xsA)"
  have final: "snd (snd (postBills_interleaved s uA dA xsA uB dB xsB))
      = snd (postBills_rest ?s3 uB n dB xsB)"
    by (simp add: postBills_interleaved_def gn split: prod.splits)
  have "distinct (map billNumber (bills ?s3))"
    using assms(1) by (rule postBills_rest_distinct)
  then have "distinct (map billNumber (bills (snd (postBills_rest ?s3 uB n dB xsB))))"
    by (rule postBills_rest_distinct)
  then show ?thesis
    using final createBill_distinct [OF assms(1)] createPurchase_distinct [OF assms(2)]
    by simp
qed

theorem stored_numbers_stay_distinct_witness:
  "distinct (map billNumber (bills trading)) \<and>
   distinct (map purchaseNumber (purchases trading)) \<and>
   distinct (map billNumber (bills (snd (createBill trading (invoice ''INV-2024-007'')
                                                   [line 1 2])))) \<and>
   distinct (map purchaseNumber (purchases (snd (createPurchase trading (purchase_order ''PUR-2024-042'')
                                                           [order_line 1 6])))) \<and>
   distinct (map billNumber
     (bills (snd (snd (postBills_interleaved trading 4 header [line 1 2] 4 header [line 1 3])))))"
proof -
  have h1: "distinct (map billNumber (bills trading))" by code_simp
  have h2: "distinct (map purchaseNumber (purchases trading))" by code_simp
  show ?thesis
    using stored_numbers_stay_distinct [OF h1 h2] h1 h2 by blast
qed

text \<open>
  Claim C6: \<open>getNextBillNumber\<close> and \<open>getNextPurchaseNumber\<close> return
  \<^verbatim>\<open>PREFIX-YEAR-NNN\<close> built from the current calendar year and the highest suffix issued
  in the series for that year, incremented and padded to three digits; a new year starts
  again at \<^verbatim>\<open>001\<close>.

  The functions read no clock. With no bill stored the code answers \<^verbatim>\<open>INV-2024-001\<close>
  in every year, where the specification's numbering gives \<^verbatim>\<open>INV-2025-001\<close> in 2025;
  with bill \<^verbatim>\<open>INV-2024-007\<close> stored the code answers \<^verbatim>\<open>INV-2024-008\<close> in 2025 as well.
\<close>

theorem next_number_ignores_the_year:
  "fst (getNextBillNumber shop) = ''INV-2024-001'' \<and>
   spec_next_number ''INV'' 2025 (map billNumber (bills shop)) = ''INV-2025-001'' \<and>
   fst (getNextBillNumber trading) = ''INV-2024-008'' \<and>
   spec_next_number ''INV'' 2025 (map billNumber (bills trading)) = ''INV-2025-001'' \<and>
   fst (getNextPurchaseNumber shop) = ''PUR-2024-001'' \<and>
   spec_next_number ''PUR'' 2025 (map purchaseNumber (purchases shop)) = ''PUR-2025-001''"
  by code_simp

text \<open>
  Claim C6, as the code has it: the result is the fixed text \<^verbatim>\<open>INV-2024-\<close>
  (\<^verbatim>\<open>PUR-2024-\<close>) followed by the suffix of the most recently created document of the
  series, whatever its prefix and year field are, incremented by one and padded to three
  digits; with no document in the series it is \<^verbatim>\<open>INV-2024-001\<close> (\<^verbatim>\<open>PUR-2024-001\<close>).
  The bound keeps the suffix where the arithmetic of the code is exact.
\<close>

theorem next_number_increments_last_suffix:
  assumes "CHR ''-'' \<notin> set prefix" and "CHR ''-'' \<notin> set year"
      and "k < 9007199254740991"
      and "n = prefix @ ''-'' @ year @ ''-'' @ padStart 3 CHR ''0'' (js_String (Some (int k)))"
  shows "(bills s = [] \<longrightarrow> fst (getNextBillNumber s) = ''INV-2024-001'') \<and>
         (bills s \<noteq> [] \<and> billNumber (last (bills s)) = n \<longrightarrow>
            fst (getNextBillNumber s)
              = ''INV-2024-'' @ padStart 3 CHR ''0'' (js_String (Some (int k + 1)))) \<and>
         (purchases s = [] \<longrightarrow> fst (getNextPurchaseNumber s) = ''PUR-2024-001'') \<and>
         (purchases s \<noteq> [] \<and> purchaseNumber (last (purchases s)) = n \<longrightarrow>
            fst (getNextPurchaseNumber s)
              = ''PUR-2024-'' @ padStart 3 CHR ''0'' (js_String (Some (int k + 1))))"
proof -
  let ?suffix = "padStart 3 CHR ''0'' (js_String (Some (int k)))"
  have n: "n = prefix @ CHR ''-'' # year @ CHR ''-'' # ?suffix"
    using assms(4) by simp
  have "js_split CHR ''-'' n = [prefix, year, ?suffix]"
    unfolding n using assms(1,2) dec_no_dash [of k] by (rule js_split_three)
  then have "parseInt_opt (js_index (js_split CHR ''-'' n) 2) = Some (int k)"
    by (simp add: js_index_def parseInt_opt_def parseInt_padStart)
  then have next_of: "js_succ (parseInt_opt (js_index (js_split CHR ''-'' n) 2)) = Some (int k + 1)"
    by (simp add: js_succ_def)
  have bill: "fst (getNextBillNumber s)
      = ''INV-2024-'' @ padStart 3 CHR ''0'' (js_String (Some (int k + 1)))"
    if "bills s \<noteq> [] \<and> billNumber (last (bills s)) = n"
  proof -
    define b where "b = last (bills s)"
    have bs: "bills s = butlast (bills s) @ [b]"
      using that by (simp add: b_def)
    have b: "billNumber b = n" using that by (simp add: b_def)
    have r: "rev (bills s) = b # rev (butlast (bills s))"
      by (subst bs) simp
    have "getNextBillNumber s =
        (''INV-2024-'' @ padStart 3 CHR ''0''
           (js_String (js_succ (parseInt_opt (js_index (js_split CHR ''-'' (billNumber b)) 2)))), s)"
      by (simp only: getNextBillNumber_def r list.case Let_def)
    then show ?thesis by (simp only: b next_of fst_conv)
  qed
  have purchase: "fst (getNextPurchaseNumber s)
      = ''PUR-2024-'' @ padStart 3 CHR ''0'' (js_String (Some (int k + 1)))"
    if "purchases s \<noteq> [] \<and> purchaseNumber (last (purchases s)) = n"
  proof -
    define p where "p = last (purchases s)"
    have ps: "purchases s = butlast (purchases s) @ [p]"
      using that by (simp add: p_def)
    have p: "purchaseNumber p = n" using that by (simp add: p_def)
    have r: "rev (purchases s) = p # rev (butlast (purchases s))"
      by (subst ps) simp
    have "getNextPurchaseNumber s =
        (''PUR-2024-'' @ padStart 3 CHR ''0''
           (js_String (js_succ (parseInt_opt
              (js_index (js_split CHR ''-'' (purchaseNumber p)) 2)))), s)"
      by (simp only: getNextPurchaseNumber_def r list.case Let_def)
    then show ?thesis by (simp only: p next_of fst_conv)
  qed
  have no_bill: "fst (getNextBillNumber s) = ''INV-2024-001''" if "bills s = []"
    using that by (simp add: getNextBillNumber_def)
  have no_purchase: "fst (getNextPurchaseNumber s) = ''PUR-2024-001''" if "purchases s = []"
    using that by (simp add: getNextPurchaseNumber_def)
  show ?thesis
  proof (intro conjI impI)
    show "fst (getNextBillNumber s) = ''INV-2024-001''" if "bills s = []"
      using that by (rule no_bill)
    show "fst (getNextBillNumber s)
        = ''INV-2024-'' @ padStart 3 CHR ''0'' (js_String (Some (int k + 1)))"
      if "bills s \<noteq> [] \<and> billNumber (last (bills s)) = n"
      using that by (rule bill)
    show "fst (getNextPurchaseNumber s) = ''PUR-2024-001''" if "purchases s = []"
      using that by (rule no_purchase)
    show "fst (getNextPurchaseNumber s)
        = ''PUR-2024-'' @ padStart 3 CHR ''0'' (js_String (Some (int k + 1)))"
      if "purchases s \<noteq> [] \<and> purchaseNumber (last (purchases s)) = n"
      using that by (rule purchase)
  qed
qed

theorem next_number_increments_last_suffix_witness:
  "CHR ''-'' \<notin> set ''INV'' \<and> CHR ''-'' \<notin> set ''PUR'' \<and> CHR ''-'' \<notin> set ''2024'' \<and>
   (7::nat) < 9007199254740991 \<and> (41::nat) < 9007199254740991 \<and>
   ''INV-2024-007''
     = ''INV'' @ ''-'' @ ''2024'' @ ''-'' @ padStart 3 CHR ''0'' (js_String (Some (int 7))) \<and>
   ''PUR-2024-041''
     = ''PUR'' @ ''-'' @ ''2024'' @ ''-'' @ padStart 3 CHR ''0'' (js_String (Some (int 41))) \<and>
   bills shop = [] \<and> fst (getNextBillNumber shop) = ''INV-2024-001'' \<and>
   purchases shop = [] \<and> fst (getNextPurchaseNumber shop) = ''PUR-2024-001'' \<and>
   bills trading \<noteq> [] \<and> billNumber (last (bills trading)) = ''INV-2024-007'' \<and>
   fst (getNextBillNumber trading)
     = ''INV-2024-'' @ padStart 3 CHR ''0'' (js_String (Some (int 7 + 1))) \<and>
   purchases trading \<noteq> [] \<and> purchaseNumber (last (purchases trading)) = ''PUR-2024-041'' \<and>
   fst (getNextPurchaseNumber trading)
     = ''PUR-2024-'' @ padStart 3 CHR ''0'' (js_String (Some (int 41 + 1)))"
proof -
  have h1: "CHR ''-'' \<notin> set ''INV''" and h1': "CHR ''-'' \<notin> set ''PUR''" by simp_all
  have h2: "CHR ''-'' \<notin> set ''2024''" by simp
  have h3: "(7::nat) < 9007199254740991" and h3': "(41::nat) < 9007199254740991" by simp_all
  have h4: "''INV-2024-007''
      = ''INV'' @ ''-'' @ ''2024'' @ ''-'' @ padStart 3 CHR ''0'' (js_String (Some (int 7)))"
    by code_simp
  have h4': "''PUR-2024-041''
      = ''PUR'' @ ''-'' @ ''2024'' @ ''-'' @ padStart 3 CHR ''0'' (js_String (Some (int 41)))"
    by code_simp
  have e1: "bills shop = []" "purchases shop = []" by (simp_all add: shop_def)
  have e2: "bills trading \<noteq> [] \<and> billNumber (last (bills trading)) = ''INV-2024-007''"
    by (simp add: trading_def)
  have e3: "purchases trading \<noteq> [] \<and>
      purchaseNumber (last (purchases trading)) = ''PUR-2024-041''"
    by (simp add: trading_def)
  note bill = next_number_increments_last_suffix [OF h1 h2 h3 h4]
  note purchase = next_number_increments_last_suffix [OF h1' h2 h3' h4']
  have r1: "fst (getNextBillNumber shop) = ''INV-2024-001''"
    using bill [of shop] e1(1) by blast
  have r2: "fst (getNextPurchaseNumber shop) = ''PUR-2024-001''"
    using bill [of shop] e1(2) by blast
  have r3: "fst (getNextBillNumber trading)
      = ''INV-2024-'' @ padStart 3 CHR ''0'' (js_String (Some (int 7 + 1)))"
    using bill [of trading] e2 by blast
  have r4: "fst (getNextPurchaseNumber trading)
      = ''PUR-2024-'' @ padStart 3 CHR ''0'' (js_String (Some (int 41 + 1)))"
    using purchase [of trading] e3 by blast
  show ?thesis
    using h1 h1' h2 h3 h3' h4 h4' e1 e2 e3 r1 r2 r3 r4 by (intro conjI) simp_all
qed

text \<open>
  Claim C7: the preview read of the next number (\<open>getNextBillNumber\<close>,
  \<open>getNextPurchaseNumber\<close>) leaves all persisted state unchanged, and two calls with
  no write between them return the same number.

  The property is one of the two storage functions, which are a single select each. The
  handlers that would expose them as next-number endpoints are never run (their paths
  are taken by the \<^verbatim>\<open>:id\<close> routes registered before them); the functions are called by
  \<^verbatim>\<open>POST /api/bills\<close> and \<^verbatim>\<open>POST /api/purchases\<close>.
\<close>

theorem next_number_preview_is_a_read:
  "snd (getNextBillNumber s) = s \<and> snd (getNextPurchaseNumber s) = s \<and>
   fst (getNextBillNumber (snd (getNextBillNumber s))) = fst (getNextBillNumber s) \<and>
   fst (getNextPurchaseNumber (snd (getNextPurchaseNumber s))) = fst (getNextPurchaseNumber s)"
  by (simp add: getNextBillNumber_state getNextPurchaseNumber_state)

theorem next_number_preview_is_a_read_witness:
  "snd (getNextBillNumber trading) = trading \<and>
   snd (getNextPurchaseNumber trading) = trading \<and>
   fst (getNextBillNumber (snd (getNextBillNumber trading))) = ''INV-2024-008'' \<and>
   fst (getNextPurchaseNumber (snd (getNextPurchaseNumber trading))) = ''PUR-2024-042''"
proof -
  have e1: "fst (getNextBillNumber trading) = ''INV-2024-008''" by code_simp
  have e2: "fst (getNextPurchaseNumber trading) = ''PUR-2024-042''" by code_simp
  show ?thesis
    using next_number_preview_is_a_read [of trading] e1 e2 by simp
qed

section \<open>Stock ledger and inventory projection\<close>

text \<open>
  Claim C3: every operation of the system preserves that, for every item, replaying the
  item's stock movements in creation order from 0 gives exactly the item's projected
  quantity. The replay clamps at 0 after each movement, the reading of the claim under
  which the code can agree with it.

  Four ways in which the code parts the two. \<^verbatim>\<open>PATCH /api/inventory/:itemId\<close> writes the
  quantity and no movement. A movement for an item with no inventory row is recorded and
  projected nowhere. A purchase of 1 on a row at the upper end of the \<^verbatim>\<open>integer\<close> column
  is recorded, then its update is rejected. Two purchases whose statements alternate both
  read 5 and the second overwrites the first: the row holds 9, the replay gives 12.
\<close>

theorem projection_parts_from_ledger:
  "projection_consistent shop \<and> every_item_has_row shop \<and>
   status_code (fst (patchInventory shop 1 5)) = 200 \<and>
   currentStock (snd (patchInventory shop 1 5)) 1 = 5 \<and>
   replay (ledger_of (snd (patchInventory shop 1 5)) 1) = 0 \<and>
   \<not> projection_consistent (snd (patchInventory shop 1 5)) \<and>
   projection_consistent (shop\<lparr>inventory := []\<rparr>) \<and>
   currentStock (snd (createStockMovement (shop\<lparr>inventory := []\<rparr>) (movement 1 ''purchase'' 4))) 1
     = 0 \<and>
   replay (ledger_of (snd (createStockMovement (shop\<lparr>inventory := []\<rparr>)
                             (movement 1 ''purchase'' 4))) 1) = 4 \<and>
   \<not> projection_consistent (snd (createStockMovement (shop\<lparr>inventory := []\<rparr>)
                                    (movement 1 ''purchase'' 4))) \<and>
   projection_consistent brimful \<and> every_item_has_row brimful \<and>
   fst (createStockMovement brimful (movement 1 ''purchase'' 1)) = Inl IntegerOutOfRange \<and>
   currentStock (snd (createStockMovement brimful (movement 1 ''purchase'' 1))) 1 = 2147483647 \<and>
   replay (ledger_of (snd (createStockMovement brimful (movement 1 ''purchase'' 1))) 1)
     = 2147483648 \<and>
   \<not> projection_consistent (snd (createStockMovement brimful (movement 1 ''purchase'' 1))) \<and>
   projection_consistent stocked \<and> every_item_has_row stocked \<and>
   currentStock (createStockMovement_interleaved stocked (movement 1 ''purchase'' 3)
                   (movement 1 ''purchase'' 4)) 1 = 9 \<and>
   replay (ledger_of (createStockMovement_interleaved stocked (movement 1 ''purchase'' 3)
                        (movement 1 ''purchase'' 4)) 1) = 12 \<and>
   \<not> projection_consistent (createStockMovement_interleaved stocked (movement 1 ''purchase'' 3)
                              (movement 1 ''purchase'' 4))"
  by code_simp

text \<open>
  Claim C3, as the code has it: on a state where every item has an inventory row, as
  \<^verbatim>\<open>createItem\<close> leaves it, the operations that write the ledger
  (\<open>createStockMovement\<close>, and \<open>createBill\<close> and \<open>createPurchase\<close> through it), run
  with no statement of another request between their own, keep for every item the
  projected quantity equal to the replay of the item's movements, unless they are ended
  by an update that the \<^verbatim>\<open>integer\<close> column rejects; \<open>updateBillStatus\<close> keeps it
  too. Every item still has its inventory row afterwards.
\<close>

theorem ledger_writes_keep_projection:
  assumes "projection_consistent s" and "every_item_has_row s"
  shows "(fst (createStockMovement s m) \<noteq> Inl IntegerOutOfRange \<longrightarrow>
            projection_consistent (snd (createStockMovement s m)) \<and>
            every_item_has_row (snd (createStockMovement s m))) \<and>
         (fst (createBill s b billItemsData) \<noteq> Inl IntegerOutOfRange \<longrightarrow>
            projection_consistent (snd (createBill s b billItemsData)) \<and>
            every_item_has_row (snd (createBill s b billItemsData))) \<and>
         (fst (createPurchase s p purchaseItemsData) \<noteq> Inl IntegerOutOfRange \<longrightarrow>
            projection_consistent (snd (createPurchase s p purchaseItemsData)) \<and>
            every_item_has_row (snd (createPurchase s p purchaseItemsData))) \<and>
         projection_consistent (snd (updateBillStatus s rid status)) \<and>
         every_item_has_row (snd (updateBillStatus s rid status))"
proof -
  have inv: "projection_consistent s \<and> every_item_has_row s" using assms by simp
  have status: "projection_consistent (snd (updateBillStatus s rid status)) \<and>
      every_item_has_row (snd (updateBillStatus s rid status))"
    by (rule invariant_cong [OF inv]) (simp add: updateBillStatus_def Let_def)
  show ?thesis
    using createStockMovement_invariant [OF inv, of m]
      createBill_invariant [OF inv, of b billItemsData]
      createPurchase_invariant [OF inv, of p purchaseItemsData] status
    by (intro conjI impI) simp_all
qed

theorem ledger_writes_keep_projection_witness:
  "projection_consistent stocked \<and> every_item_has_row stocked \<and>
   fst (createStockMovement stocked (movement 1 ''sale'' 7)) \<noteq> Inl IntegerOutOfRange \<and>
   projection_consistent (snd (createStockMovement stocked (movement 1 ''sale'' 7))) \<and>
   fst (createBill stocked (invoice ''INV-2024-001'') [line 1 2]) \<noteq> Inl IntegerOutOfRange \<and>
   projection_consistent (snd (createBill stocked (invoice ''INV-2024-001'') [line 1 2])) \<and>
   fst (createPurchase stocked (purchase_order ''PUR-2024-001'') [order_line 1 6])
     \<noteq> Inl IntegerOutOfRange \<and>
   projection_consistent (snd (createPurchase stocked (purchase_order ''PUR-2024-001'')
                                 [order_line 1 6])) \<and>
   projection_consistent (snd (updateBillStatus stocked 10 ''paid''))"
proof -
  have h1: "projection_consistent stocked" by code_simp
  have h2: "every_item_has_row stocked" by code_simp
  have a1: "fst (createStockMovement stocked (movement 1 ''sale'' 7)) \<noteq> Inl IntegerOutOfRange"
    by code_simp
  have a2: "fst (createBill stocked (invoice ''INV-2024-001'') [line 1 2])
      \<noteq> Inl IntegerOutOfRange"
    by code_simp
  have a3: "fst (createPurchase stocked (purchase_order ''PUR-2024-001'') [order_line 1 6])
      \<noteq> Inl IntegerOutOfRange"
    by code_simp
  show ?thesis
    using ledger_writes_keep_projection [OF h1 h2] h1 h2 a1 a2 a3 by blast
qed










section \<open>Document transaction engine\<close>

text \<open>
  Claim C2: \<open>createBill\<close> (and \<open>createPurchase\<close>) is atomic: the header, all line
  items and one stock movement per line become visible together or not at all; after a
  failure that follows the writing of the header no bill with that number is visible.

  No operation opens a transaction. A bill with a line for item 9, which the example
  shop does not have, fails at the insert of the lines, after the header was inserted:
  the bill \<^verbatim>\<open>INV-2024-001\<close> is visible afterwards, with no line and no movement. A
  purchase of one unit of an item whose inventory row is at the upper end of the
  \<^verbatim>\<open>integer\<close> column fails at the update of the row, after the header, the line and the
  movement were written.
\<close>

theorem createBill_leaves_header_behind:
  "fst (createBill shop (invoice ''INV-2024-001'') [line 1 2, line 9 1])
     = Inl ForeignKeyViolation \<and>
   map billNumber (bills (snd (createBill shop (invoice ''INV-2024-001'') [line 1 2, line 9 1])))
     = [''INV-2024-001''] \<and>
   billItems (snd (createBill shop (invoice ''INV-2024-001'') [line 1 2, line 9 1])) = [] \<and>
   stockMovements (snd (createBill shop (invoice ''INV-2024-001'') [line 1 2, line 9 1])) = [] \<and>
   map_option (map_prod billNumber (map bi_itemId))
     (getBill (snd (createBill shop (invoice ''INV-2024-001'') [line 1 2, line 9 1])) 10)
     = Some (''INV-2024-001'', []) \<and>
   fst (createPurchase brimful (purchase_order ''PUR-2024-001'') [order_line 1 1])
     = Inl IntegerOutOfRange \<and>
   map purchaseNumber
     (purchases (snd (createPurchase brimful (purchase_order ''PUR-2024-001'') [order_line 1 1])))
     = [''PUR-2024-001''] \<and>
   map pi_itemId
     (purchaseItems (snd (createPurchase brimful (purchase_order ''PUR-2024-001'')
                            [order_line 1 1])))
     = [1] \<and>
   map movement_fields
     (stockMovements (snd (createPurchase brimful (purchase_order ''PUR-2024-001'')
                             [order_line 1 1])))
     = [(1, ''adjustment'', 2147483647, None),
        (1, ''purchase'', 1, Some ''Purchase - PUR-2024-001'')] \<and>
   map inv_quantity
     (inventory (snd (createPurchase brimful (purchase_order ''PUR-2024-001'') [order_line 1 1])))
     = [2147483647]"
  by code_simp

text \<open>
  Claim C2, as the code has it: \<open>createBill\<close> (and \<open>createPurchase\<close>), run with no
  statement of another request between its own, ends in one of four ways. It fails at the
  insert of the header and nothing is written. Or it fails at the insert of the lines,
  and the header alone is left, with no line and no movement, inventory untouched. Or it
  is ended in the loop over the lines by an update that the \<^verbatim>\<open>integer\<close> column of the
  inventory rejects, and the header, every line and the movements of the lines up to and
  including the rejected one are left. Or it succeeds, and the header, every submitted
  line and one movement per line, in the order of the lines and with the reason naming
  the document's number, are all written. A line is stored with its rate and amount
  rounded to two decimal places.
\<close>

theorem document_creation_outcomes:
  "((\<exists>e. createBill s b xs = (Inl e, s)) \<or>
    (\<exists>e s' h. createBill s b xs = (Inl e, s') \<and> bills s' = bills s @ [h] \<and>
        billNumber h = ib_billNumber b \<and>
        ib_billNumber b \<notin> set (map billNumber (bills s)) \<and> billItems s' = billItems s \<and>
        stockMovements s' = stockMovements s \<and> inventory s' = inventory s) \<or>
    (\<exists>s' h lines mvs. createBill s b xs = (Inl IntegerOutOfRange, s') \<and>
        bills s' = bills s @ [h] \<and> billNumber h = ib_billNumber b \<and>
        ib_billNumber b \<notin> set (map billNumber (bills s)) \<and>
        billItems s' = billItems s @ lines \<and>
        map bill_item_fields lines =
          map (\<lambda>x. (bill_id h, ibi_itemId x, ibi_quantity x, decimal_10_2 (ibi_rate x),
                     decimal_10_2 (ibi_amount x))) xs \<and>
        stockMovements s' = stockMovements s @ mvs \<and>
        mvs \<noteq> [] \<and> length mvs \<le> length xs \<and>
        map movement_fields mvs =
          map (\<lambda>x. (ibi_itemId x, ''sale'', ibi_quantity x,
                     Some (''Sale - Bill '' @ ib_billNumber b))) (take (length mvs) xs)) \<or>
    (\<exists>r s' h lines mvs. createBill s b xs = (Inr r, s') \<and> bills s' = bills s @ [h] \<and>
        billNumber h = ib_billNumber b \<and>
        ib_billNumber b \<notin> set (map billNumber (bills s)) \<and>
        billItems s' = billItems s @ lines \<and>
        map bill_item_fields lines =
          map (\<lambda>x. (bill_id h, ibi_itemId x, ibi_quantity x, decimal_10_2 (ibi_rate x),
                     decimal_10_2 (ibi_amount x))) xs \<and>
        stockMovements s' = stockMovements s @ mvs \<and>
        map movement_fields mvs =
          map (\<lambda>x. (ibi_itemId x, ''sale'', ibi_quantity x,
                     Some (''Sale - Bill '' @ ib_billNumber b))) xs)) \<and>
   ((\<exists>e. createPurchase s p ys = (Inl e, s)) \<or>
    (\<exists>e s' h. createPurchase s p ys = (Inl e, s') \<and> purchases s' = purchases s @ [h] \<and>
        purchaseNumber h = ip_purchaseNumber p \<and>
        ip_purchaseNumber p \<notin> set (map purchaseNumber (purchases s)) \<and>
        purchaseItems s' = purchaseItems s \<and>
        stockMovements s' = stockMovements s \<and> inventory s' = inventory s) \<or>
    (\<exists>s' h lines mvs. createPurchase s p ys = (Inl IntegerOutOfRange, s') \<and>
        purchases s' = purchases s @ [h] \<and> purchaseNumber h = ip_purchaseNumber p \<and>
        ip_purchaseNumber p \<notin> set (map purchaseNumber (purchases s)) \<and>
        purchaseItems s' = purchaseItems s @ lines \<and>
        map purchase_item_fields lines =
          map (\<lambda>x. (pur_id h, ipi_itemId x, ipi_quantity x, decimal_10_2 (ipi_rate x),
                     decimal_10_2 (ipi_amount x))) ys \<and>
        stockMovements s' = stockMovements s @ mvs \<and>
        mvs \<noteq> [] \<and> length mvs \<le> length ys \<and>
        map movement_fields mvs =
          map (\<lambda>x. (ipi_itemId x, ''purchase'', ipi_quantity x,
                     Some (''Purchase - '' @ ip_purchaseNumber p))) (take (length mvs) ys)) \<or>
    (\<exists>r s' h lines mvs. createPurchase s p ys = (Inr r, s') \<and>
        purchases s' = purchases s @ [h] \<and>
        purchaseNumber h = ip_purchaseNumber p \<and>
        ip_purchaseNumber p \<notin> set (map purchaseNumber (purchases s)) \<and>
        purchaseItems s' = purchaseItems s @ lines \<and>
        map purchase_item_fields lines =
          map (\<lambda>x. (pur_id h, ipi_itemId x, ipi_quantity x, decimal_10_2 (ipi_rate x),
                     decimal_10_2 (ipi_amount x))) ys \<and>
        stockMovements s' = stockMovements s @ mvs \<and>
        map movement_fields mvs =
          map (\<lambda>x. (ipi_itemId x, ''purchase'', ipi_quantity x,
                     Some (''Purchase - '' @ ip_purchaseNumber p))) ys))"
  using createBill_outcomes [of s b xs] createPurchase_outcomes [of s p ys]
  by (rule conjI)

theorem document_creation_outcomes_witness:
  "map billNumber (bills (snd (createBill stocked (invoice ''INV-2024-001'')
       [\<lparr>ibi_itemId = 1, ibi_quantity = 2, ibi_rate = 1 / 8, ibi_amount = 1 / 4\<rparr>])))
     = [''INV-2024-001''] \<and>
   map bill_item_fields (billItems (snd (createBill stocked (invoice ''INV-2024-001'')
       [\<lparr>ibi_itemId = 1, ibi_quantity = 2, ibi_rate = 1 / 8, ibi_amount = 1 / 4\<rparr>])))
     = [(11, 1, 2, 13 / 100, 1 / 4)] \<and>
   map movement_fields (stockMovements (snd (createBill stocked (invoice ''INV-2024-001'')
       [\<lparr>ibi_itemId = 1, ibi_quantity = 2, ibi_rate = 1 / 8, ibi_amount = 1 / 4\<rparr>])))
     = [(1, ''purchase'', 5, None), (1, ''sale'', 2, Some ''Sale - Bill INV-2024-001'')] \<and>
   map inv_quantity (inventory (snd (createBill stocked (invoice ''INV-2024-001'')
       [\<lparr>ibi_itemId = 1, ibi_quantity = 2, ibi_rate = 1 / 8, ibi_amount = 1 / 4\<rparr>])))
     = [3] \<and>
   createBill trading (invoice ''INV-2024-007'') [line 1 2] = (Inl UniqueViolation, trading)"
proof -
  let ?l = "\<lparr>ibi_itemId = 1, ibi_quantity = 2, ibi_rate = 1 / 8, ibi_amount = 1 / 4\<rparr>"
  have e1: "map billNumber (bills (snd (createBill stocked (invoice ''INV-2024-001'') [?l])))
      = [''INV-2024-001'']" by code_simp
  have e2: "map bill_item_fields
        (billItems (snd (createBill stocked (invoice ''INV-2024-001'') [?l])))
      = [(11, 1, 2, 13 / 100, 1 / 4)]" by code_simp
  have e3: "map movement_fields
        (stockMovements (snd (createBill stocked (invoice ''INV-2024-001'') [?l])))
      = [(1, ''purchase'', 5, None), (1, ''sale'', 2, Some ''Sale - Bill INV-2024-001'')]"
    by code_simp
  have e4: "map inv_quantity
        (inventory (snd (createBill stocked (invoice ''INV-2024-001'') [?l]))) = [3]"
    by code_simp
  have u: "createBill trading (invoice ''INV-2024-007'') [line 1 2]
      = (Inl UniqueViolation, trading)"
    by code_simp
  show ?thesis
    using document_creation_outcomes
        [of stocked "invoice ''INV-2024-001''" "[?l]" "purchase_order ''PUR-2024-001''"
            "[order_line 1 6]"] e1 e2 e3 e4 u
    by (intro conjI)
qed




text \<open>
  Claim C9: \<open>createBill\<close> validates its input before any write: a submission whose line
  list is empty, or that has a line with quantity \<open>< 1\<close> or rate \<open>< 0\<close>, is rejected
  as a validation error and no header, line or movement is written.

  The handler checks each line and never the list: with an empty list the header is
  inserted, the insert of no lines throws, and the request is answered 400 with the bill
  \<^verbatim>\<open>INV-2024-001\<close> left in the store, so that the next number is \<^verbatim>\<open>INV-2024-002\<close>.
\<close>

theorem empty_bill_leaves_header:
  "status_code (fst (postBills shop 4 header [])) = 400 \<and>
   map billNumber (bills (snd (postBills shop 4 header []))) = [''INV-2024-001''] \<and>
   billItems (snd (postBills shop 4 header [])) = [] \<and>
   stockMovements (snd (postBills shop 4 header [])) = [] \<and>
   fst (getNextBillNumber (snd (postBills shop 4 header []))) = ''INV-2024-002''"
  by code_simp

text \<open>
  The rest of the claim holds: a submission with a line whose quantity is below 1 or
  whose rate is below 0 is answered 400 and nothing is written.
\<close>

lemma postBills_rejects_bad_line:
  assumes "l \<in> set billItemsData" and "ibi_quantity l < 1 \<or> ibi_rate l < 0"
  shows "status_code (fst (postBills s userId billData billItemsData)) = 400 \<and>
         snd (postBills s userId billData billItemsData) = s"
proof -
  obtain n where gn: "getNextBillNumber s = (n, s)"
    using getNextBillNumber_state [of s] by (cases "getNextBillNumber s") simp
  have "\<not> insertBillItemSchema_ok l"
    using assms(2) by (auto simp: insertBillItemSchema_ok_def)
  then have "\<not> list_all insertBillItemSchema_ok billItemsData"
    using assms(1) by (auto simp: list_all_iff)
  then show ?thesis
    by (simp add: postBills_def gn postBills_rest_def Let_def)
qed

end
